theory Spec2Isabelle
  imports Complex_Main "HOL-Library.Multiset" "HOL-Library.Word"
begin

text \<open>
  A model of the analysis pipeline of SolProof, which inspects a Solana program and its
  recent transactions: the binary profiler, the transaction classifier with its
  retrying fetch, the token flow aggregation, the call graph builder, the behaviour
  inferer, the safety assessor and the risk predictor. Each function of the source is a
  definition of the same name; the properties follow the definitions.
\<close>

section \<open>JavaScript values used by the analysis pipeline\<close>

text \<open>
  The pipeline is JavaScript. Its numbers are modelled as exact rationals; a numeric
  property that is \<^verbatim>\<open>undefined\<close> (or \<^verbatim>\<open>NaN\<close>) is \<open>None\<close>, and every relational
  operator on it is false, as \<^verbatim>\<open>undefined > x\<close> and \<^verbatim>\<open>NaN > x\<close> are in JavaScript.
  The arithmetic of the scores and of the binary profile is exact; the token flow
  aggregation adds, multiplies and divides in IEEE doubles (section on double
  arithmetic below).
  An object that the code dereferences and that may be missing is an \<open>option\<close>;
  reading a property of a missing object raises \<^verbatim>\<open>TypeError\<close>.
\<close>

type_synonym jsnum = "rat option"

definition js_gt :: "jsnum \<Rightarrow> jsnum \<Rightarrow> bool" where
  "js_gt a b = (case a of None \<Rightarrow> False | Some x \<Rightarrow> (case b of None \<Rightarrow> False | Some y \<Rightarrow> y < x))"

definition js_lt :: "jsnum \<Rightarrow> jsnum \<Rightarrow> bool" where
  "js_lt a b = (case a of None \<Rightarrow> False | Some x \<Rightarrow> (case b of None \<Rightarrow> False | Some y \<Rightarrow> x < y))"

definition js_times :: "jsnum \<Rightarrow> rat \<Rightarrow> jsnum" where
  "js_times a c = (case a of None \<Rightarrow> None | Some x \<Rightarrow> Some (x * c))"

datatype error = Error string | TypeError

section \<open>Data model\<close>

text \<open>The \<^verbatim>\<open>insights\<close> object produced by \<^verbatim>\<open>analyzeBinary\<close> (src/lib/analyzer.js).
  The timeout fallbacks that the callers write leave \<^verbatim>\<open>syscalls\<close>,
  \<^verbatim>\<open>authorityHolders\<close> and \<^verbatim>\<open>address\<close> out, so these three are optional: \<open>None\<close>
  is \<^verbatim>\<open>undefined\<close>.\<close>

record control_flow =
  branches :: rat
  loops :: rat

record insights =
  instructions :: jsnum
  syscalls :: "string list option"
  suspectedType :: string
  reentrancyRisk :: string
  controlFlow :: control_flow
  usesBorsh :: bool
  hiddenMint :: bool
  authorityHolders :: "string list option"
  address :: "string option"

text \<open>\<^verbatim>\<open>analysis?.insights\<close>: \<open>None\<close> when \<^verbatim>\<open>analysis\<close> is null or has no insights.\<close>

type_synonym analysis = "insights option"

text \<open>A token flow (src/lib/transactions.js, \<^verbatim>\<open>analyzeTokenFlows\<close>). The mint is
  \<open>None\<close> when the instruction gave none (\<^verbatim>\<open>undefined\<close>).\<close>

record flow =
  account :: string
  amount :: rat
  token :: "string option"
  mint :: "string option"
  flowType :: string
  txCount :: nat

record type_stats =
  count_of :: jsnum
  volumeSOL :: jsnum

record transaction_types =
  swaps :: "type_stats option"
  transfers :: "type_stats option"
  mints :: "type_stats option"
  burns :: "type_stats option"
  governance :: "type_stats option"
  nftMints :: "type_stats option"
  others :: "type_stats option"

record token_flow_insights =
  topOutflows :: "flow list"
  topInflows :: "flow list"
  concentrationRisk :: bool

record volume_analysis =
  meanVolumeSOL :: jsnum
  stdDevVolumeSOL :: jsnum
  highVolatility :: bool

record economic_insights =
  totalVolumeSOL :: jsnum
  averageFeeSOL :: jsnum
  transactionCount :: jsnum
  transactionTypes :: "transaction_types option"
  suspiciousVolume :: jsnum
  tokenFlowInsights :: "token_flow_insights option"
  transactionVolumeAnalysis :: "volume_analysis option"

record risk =
  issue :: string
  implication :: string
  mitigation :: string

record safety_assessment =
  safetyScore :: rat
  risks :: "risk list"

text \<open>One entry of the authority analysis (authorityAnalyzer.js, \<^verbatim>\<open>analyzeAuthorityHolders\<close>).\<close>

record authority_insight =
  authority :: string
  totalSOLWithdrawn :: rat
  walletAgeDays :: rat
  tokenMintCount :: rat

text \<open>A call-graph edge and the call graph (callGraph.js, \<^verbatim>\<open>reconstructCallGraph\<close>).
  A node is an address, or \<^verbatim>\<open>undefined\<close> (\<open>None\<close>) when the insights carry no address.\<close>

record edge =
  from_node :: string
  to_node :: string
  action :: string
  edge_count :: nat

record call_graph =
  nodes :: "string option list"
  edges :: "edge list"

section \<open>SafetyAssessor (src/lib/safetyAssessor.js)\<close>

text \<open>
  \<^verbatim>\<open>assessSafety(analysis, authorityInsights, transactions, callGraph)\<close>.
  \<open>authorityInsights\<close> is an array and \<open>callGraph\<close> an object with an \<^verbatim>\<open>edges\<close> array,
  as the function's documentation types them and as every caller passes them; of
  \<open>transactions\<close> only \<^verbatim>\<open>economicInsights\<close> is read, which is the third argument here.
  The body of the \<^verbatim>\<open>try\<close> block returns \<open>Inl\<close> where the source throws.
\<close>

definition hiddenMint_risk :: risk where
  "hiddenMint_risk = \<lparr>issue = ''Potential unchecked minting'',
     implication = ''Risk of unauthorized token issuance'',
     mitigation = ''Verify minting constraints''\<rparr>"

definition singleAuthority_risk :: risk where
  "singleAuthority_risk = \<lparr>issue = ''Single authority'',
     implication = ''Centralization risk'',
     mitigation = ''Monitor authority actions''\<rparr>"

definition suspiciousVolume_risk :: risk where
  "suspiciousVolume_risk = \<lparr>issue = ''High suspicious volume'',
     implication = ''Potential laundering'',
     mitigation = ''Trace top accounts''\<rparr>"

definition complexInteractions_risk :: risk where
  "complexInteractions_risk = \<lparr>issue = ''Complex interactions'',
     implication = ''Increased risk of hidden logic'',
     mitigation = ''Review call graph''\<rparr>"

definition assessSafety_try ::
  "analysis \<Rightarrow> authority_insight list \<Rightarrow> economic_insights option \<Rightarrow> call_graph \<Rightarrow> error + safety_assessment" where
  "assessSafety_try analysis authorityInsights economicInsights callGraph =
     (case analysis of
        None \<Rightarrow> Inl (Error ''Invalid input data for safety assessment'')
      | Some ins \<Rightarrow>
     (case economicInsights of
        None \<Rightarrow> Inl (Error ''Invalid input data for safety assessment'')
      | Some eco \<Rightarrow>
        let rs0 = []; score0 = 80;
            (rs1, score1) =
              (if hiddenMint ins then (rs0 @ [hiddenMint_risk], score0 - 20) else (rs0, score0));
            (rs2, score2) =
              (if length authorityInsights = 1
               then (rs1 @ [singleAuthority_risk], score1 - 10) else (rs1, score1));
            (rs3, score3) =
              (if js_gt (suspiciousVolume eco) (js_times (totalVolumeSOL eco) (1/2))
               then (rs2 @ [suspiciousVolume_risk], score2 - 15) else (rs2, score2));
            (rs4, score4) =
              (if length (edges callGraph) > 50
               then (rs3 @ [complexInteractions_risk], score3 - 10) else (rs3, score3))
        in Inr \<lparr>safetyScore = max 0 (min 100 score4), risks = rs4\<rparr>))"

definition assessSafety ::
  "analysis \<Rightarrow> authority_insight list \<Rightarrow> economic_insights option \<Rightarrow> call_graph \<Rightarrow> safety_assessment" where
  "assessSafety analysis authorityInsights economicInsights callGraph =
     (case assessSafety_try analysis authorityInsights economicInsights callGraph of
        Inr r \<Rightarrow> r
      | Inl err \<Rightarrow> \<lparr>safetyScore = 50, risks = []\<rparr>)"

section \<open>BehaviorInferer (ai.js)\<close>

text \<open>
  \<^verbatim>\<open>inferBehavior(analysis, transactionData)\<close>; of \<open>transactionData\<close> only
  \<^verbatim>\<open>economicInsights\<close> is read. The checks run in the order of the source, and
  a property read on a missing object raises \<^verbatim>\<open>TypeError\<close> at the place where the
  source reads it. The three blocks of the source (scam probability, laundering
  likelihood, program type confidence) are three definitions, run in this order. \<open>programTypeConfidence\<close> is the object literal as a list of
  key and value pairs, in the order written.
\<close>

record behavior =
  scamProbability :: rat
  launderingLikelihood :: rat
  programTypeConfidence :: "(string \<times> rat) list"

definition scamProbability_of :: "insights \<Rightarrow> economic_insights \<Rightarrow> error + rat" where
  "scamProbability_of ins eco =
     (let scam0 = 10;
          scam1 = (if hiddenMint ins then scam0 + 30 else scam0);
          scam2 = (if js_gt (suspiciousVolume eco) (js_times (totalVolumeSOL eco) (1/2))
                   then scam1 + 20 else scam1);
          scam3 = (if js_lt (transactionCount eco) (Some 10) \<and> js_gt (totalVolumeSOL eco) (Some 100)
                   then scam2 + 20 else scam2)
      in case authorityHolders ins of
           None \<Rightarrow> Inl TypeError
         | Some holders \<Rightarrow> Inr (if length holders = 1 then scam3 + 10 else scam3))"

definition launderingLikelihood_of :: "insights \<Rightarrow> economic_insights \<Rightarrow> error + rat" where
  "launderingLikelihood_of ins eco =
     (let laund0 = 10 in
      case tokenFlowInsights eco of None \<Rightarrow> Inl TypeError | Some tfi \<Rightarrow>
        let laund1 = (if concentrationRisk tfi then laund0 + 25 else laund0) in
     (case transactionVolumeAnalysis eco of None \<Rightarrow> Inl TypeError | Some tva \<Rightarrow>
        let laund2 = (if highVolatility tva then laund1 + 20 else laund1) in
     (case transactionTypes eco of None \<Rightarrow> Inl TypeError | Some tt \<Rightarrow>
     (case others tt of None \<Rightarrow> Inl TypeError | Some oth \<Rightarrow>
        let laund3 = (if js_gt (count_of oth) (js_times (transactionCount eco) (3/10))
                      then laund2 + 15 else laund2) in
     (case syscalls ins of None \<Rightarrow> Inl TypeError | Some scs \<Rightarrow>
        Inr (if ''sol_invoke'' \<in> set scs \<and> js_gt (instructions ins) (Some 500)
             then laund3 + 10 else laund3))))))"

text \<open>The \<^verbatim>\<open>transactionTypes\<close> object was read by the laundering block before this
  block runs, so it is present here.\<close>

definition programTypeConfidence_of ::
  "insights \<Rightarrow> economic_insights \<Rightarrow> error + (string \<times> rat) list" where
  "programTypeConfidence_of ins eco =
     (if suspectedType ins = ''governance''
      then Inr [(''governance'', 90), (''amm'', 5), (''nft'', 5)]
      else
     (case transactionTypes eco of None \<Rightarrow> Inl TypeError | Some tt \<Rightarrow>
     (case swaps tt of None \<Rightarrow> Inl TypeError | Some sw \<Rightarrow>
        if js_gt (count_of sw) (js_times (transactionCount eco) (1/2))
        then Inr [(''amm'', 85), (''governance'', 10), (''nft'', 5)]
        else
     (case nftMints tt of None \<Rightarrow> Inl TypeError | Some nm \<Rightarrow>
        if js_gt (count_of nm) (js_times (transactionCount eco) (3/10))
        then Inr [(''nft'', 80), (''amm'', 10), (''governance'', 10)]
        else Inr [(''unknown'', 50), (''governance'', 20), (''amm'', 20), (''nft'', 10)]))))"

definition inferBehavior_try :: "analysis \<Rightarrow> economic_insights option \<Rightarrow> error + behavior" where
  "inferBehavior_try analysis economicInsights =
     (case analysis of
        None \<Rightarrow> Inl (Error ''Invalid input data for behavior inference'')
      | Some ins \<Rightarrow>
     (case economicInsights of
        None \<Rightarrow> Inl (Error ''Invalid input data for behavior inference'')
      | Some eco \<Rightarrow>
     (case scamProbability_of ins eco of Inl err \<Rightarrow> Inl err | Inr scam \<Rightarrow>
     (case launderingLikelihood_of ins eco of Inl err \<Rightarrow> Inl err | Inr laund \<Rightarrow>
     (case programTypeConfidence_of ins eco of Inl err \<Rightarrow> Inl err | Inr conf \<Rightarrow>
        Inr \<lparr>scamProbability = min 100 scam,
             launderingLikelihood = min 100 laund,
             programTypeConfidence = conf\<rparr>)))))"

definition inferBehavior :: "analysis \<Rightarrow> economic_insights option \<Rightarrow> behavior" where
  "inferBehavior analysis economicInsights =
     (case inferBehavior_try analysis economicInsights of
        Inr r \<Rightarrow> r
      | Inl err \<Rightarrow> \<lparr>scamProbability = 10, launderingLikelihood = 10,
                    programTypeConfidence = [(''unknown'', 100)]\<rparr>)"

section \<open>RiskPredictor (riskPredictor.js, the \<^verbatim>\<open>predictRisk\<close> that index.js exports)\<close>

text \<open>
  \<^verbatim>\<open>predictRisk(authorityInsights, transactionData, safetyAssessment)\<close>.
  \<open>authorityInsights\<close> and \<open>safetyAssessment\<close> are \<open>None\<close> when they are null or
  undefined (the guard tests them); an empty array is truthy.
  The prediction compares the likelihood before it is clamped.
  (src/lib/predictRisk.js holds an older function of the same name, which starts from 50
  and has other rules; index.js does not export it and it is not modelled.)
\<close>

record risk_factor =
  factor_issue :: string
  details :: string

record risk_prediction =
  riskLikelihood :: rat
  prediction :: string
  riskFactors :: "risk_factor list"

definition predictRisk_try ::
  "authority_insight list option \<Rightarrow> economic_insights option \<Rightarrow> safety_assessment option \<Rightarrow> error + risk_prediction" where
  "predictRisk_try authorityInsights economicInsights safetyAssessment =
     (case authorityInsights of
        None \<Rightarrow> Inl (Error ''Invalid input data for risk prediction'')
      | Some auths \<Rightarrow>
     (case economicInsights of
        None \<Rightarrow> Inl (Error ''Invalid input data for risk prediction'')
      | Some eco \<Rightarrow>
     (case safetyAssessment of
        None \<Rightarrow> Inl (Error ''Invalid input data for risk prediction'')
      | Some sa \<Rightarrow>
     (case transactionVolumeAnalysis eco of None \<Rightarrow> Inl TypeError | Some tva \<Rightarrow>
        let likelihood0 = 30; fs0 = [];
            (fs1, likelihood1) =
              (if highVolatility tva
               then (fs0 @ [\<lparr>factor_issue = ''High transaction volume volatility'',
                              details = ''May indicate manipulative activity''\<rparr>], likelihood0 + 20)
               else (fs0, likelihood0));
            (fs2, likelihood2) =
              (if length auths = 1
               then (fs1 @ [\<lparr>factor_issue = ''Single authority'',
                              details = ''Increases risk of malicious upgrades''\<rparr>], likelihood1 + 15)
               else (fs1, likelihood1));
            (fs3, likelihood3) =
              (if safetyScore sa < 50
               then (fs2 @ [\<lparr>factor_issue = ''Low safety score'',
                              details = ''Indicates multiple vulnerabilities''\<rparr>], likelihood2 + 25)
               else (fs2, likelihood2))
        in Inr \<lparr>riskLikelihood = min 100 likelihood3,
                 prediction = (if likelihood3 > 70 then ''High risk'' else ''Low to moderate risk''),
                 riskFactors = fs3\<rparr>))))"

definition predictRisk ::
  "authority_insight list option \<Rightarrow> economic_insights option \<Rightarrow> safety_assessment option \<Rightarrow> risk_prediction" where
  "predictRisk authorityInsights economicInsights safetyAssessment =
     (case predictRisk_try authorityInsights economicInsights safetyAssessment of
        Inr r \<Rightarrow> r
      | Inl err \<Rightarrow> \<lparr>riskLikelihood = 30, prediction = ''Low risk'', riskFactors = []\<rparr>)"

section \<open>BinaryProfiler (src/lib/analyzer.js)\<close>

text \<open>
  A \<^verbatim>\<open>Buffer\<close> is a list of bytes. \<^verbatim>\<open>Buffer.from(str)\<close> of an ASCII string is the list
  of its character codes, and \<^verbatim>\<open>buf.includes(needle)\<close> is true when \<open>needle\<close> occurs in
  \<open>buf\<close> as a contiguous block (an empty needle always occurs).
\<close>

type_synonym byte = "8 word"

definition Buffer_from :: "string \<Rightarrow> byte list" where
  "Buffer_from str = map (\<lambda>c. of_nat (of_char c)) str"

fun starts_with :: "byte list \<Rightarrow> byte list \<Rightarrow> bool" where
  "starts_with buf [] = True"
| "starts_with [] (n # needle) = False"
| "starts_with (b # buf) (n # needle) = (b = n \<and> starts_with buf needle)"

fun buffer_includes :: "byte list \<Rightarrow> byte list \<Rightarrow> bool" where
  "buffer_includes [] needle = (needle = [])"
| "buffer_includes (b # buf) needle =
     (starts_with (b # buf) needle \<or> buffer_includes buf needle)"

definition syscallSignatures :: "(string \<times> byte list) list" where
  "syscallSignatures =
     [(''sol_invoke'', [0x01, 0x00, 0x00]),
      (''sol_verify_signature'', [0x02, 0x00, 0x00]),
      (''sol_alloc_free'', [0x03, 0x00, 0x00])]"

text \<open>The loop over \<^verbatim>\<open>Object.entries(syscallSignatures)\<close> pushes, in the order of the
  table, the name of every signature that the binary includes.\<close>

definition detectSyscalls :: "byte list \<Rightarrow> string list" where
  "detectSyscalls binary =
     map fst (filter (\<lambda>(syscall, signature). buffer_includes binary signature) syscallSignatures)"

definition inferProgramType :: "string \<Rightarrow> byte list \<Rightarrow> string" where
  "inferProgramType addr binary =
     (if addr = ''GovER5Lthms3bLBqWub97yVrMmEogzX7xNjdXpPPCVZw'' then ''governance''
      else if buffer_includes binary (Buffer_from ''swap'') then ''amm''
      else if buffer_includes binary (Buffer_from ''mintNFT'') then ''nft''
      else ''unknown'')"

text \<open>
  \<^verbatim>\<open>analyzeBinary(binary, address)\<close>. The binary is \<open>None\<close> when it is null or
  undefined, where \<^verbatim>\<open>binary.length\<close> raises and the \<^verbatim>\<open>catch\<close> block returns the neutral
  profile. \<^verbatim>\<open>Math.floor\<close> is \<open>floor\<close>; the factors 0.1 and 0.05 are the rationals
  1/10 and 1/20.
\<close>

definition analyzeBinary_try :: "byte list option \<Rightarrow> string \<Rightarrow> error + insights" where
  "analyzeBinary_try binary addr =
     (case binary of
        None \<Rightarrow> Inl TypeError
      | Some buf \<Rightarrow>
        let binarySize = (of_nat (length buf) :: rat);
            instructionCount = (of_int \<lfloor>binarySize / 8\<rfloor> :: rat);
            syscalls = detectSyscalls buf;
            suspectedType = inferProgramType addr buf;
            controlFlow = \<lparr>branches = of_int \<lfloor>instructionCount * (1/10)\<rfloor>,
                           loops = of_int \<lfloor>instructionCount * (1/20)\<rfloor>\<rparr>;
            usesBorsh = buffer_includes buf (Buffer_from ''borsh'');
            hiddenMint = buffer_includes buf (Buffer_from ''mint'')
        in Inr \<lparr>instructions = Some instructionCount,
                 syscalls = Some syscalls,
                 suspectedType = suspectedType,
                 reentrancyRisk = (if instructionCount > 1000 then ''Moderate'' else ''Low''),
                 controlFlow = controlFlow,
                 usesBorsh = usesBorsh,
                 hiddenMint = hiddenMint,
                 authorityHolders = Some [''8x7y...z9k2''],
                 address = Some addr\<rparr>)"

definition analyzeBinary :: "byte list option \<Rightarrow> string \<Rightarrow> insights" where
  "analyzeBinary binary addr =
     (case analyzeBinary_try binary addr of
        Inr r \<Rightarrow> r
      | Inl err \<Rightarrow>
          \<lparr>instructions = Some 0, syscalls = Some [], suspectedType = ''unknown'',
           reentrancyRisk = ''Low'', controlFlow = \<lparr>branches = 0, loops = 0\<rparr>,
           usesBorsh = False, hiddenMint = False, authorityHolders = Some [],
           address = Some addr\<rparr>)"

text \<open>
  The source multiplies in IEEE double arithmetic, where 0.1 and 0.05 are the doubles
  nearest to 1/10 and 1/20 and every product is rounded. \<open>double_0_1\<close> and
  \<open>double_0_05\<close> are these two doubles. The lemma \<open>estimates_under_rounding\<close> below
  shows that, for buffers of less than \<open>2 ^ 50\<close> bytes, the rounded computation gives
  the same three integers as the exact one above, for every rounding function that is
  monotone and leaves the numbers \<open>m / 32\<close> with \<open>m < 2 ^ 53\<close> unchanged, as rounding
  to the nearest double does.
\<close>

definition double_0_1 :: rat where
  "double_0_1 = 3602879701896397 / 2 ^ 55"

definition double_0_05 :: rat where
  "double_0_05 = 3602879701896397 / 2 ^ 56"

definition rounds_like_double :: "(rat \<Rightarrow> rat) \<Rightarrow> bool" where
  "rounds_like_double rnd \<longleftrightarrow>
     (\<forall>x y. x \<le> y \<longrightarrow> rnd x \<le> rnd y) \<and>
     (\<forall>m::nat. m < 2 ^ 53 \<longrightarrow> rnd (of_nat m / 32) = of_nat m / 32)"

section \<open>Transactions and instructions\<close>

text \<open>
  An element of \<^verbatim>\<open>ix.accounts\<close> is a public key, on which \<^verbatim>\<open>toBase58()\<close> gives the
  address, or \<^verbatim>\<open>null\<close> or \<^verbatim>\<open>undefined\<close> (\<open>Nullish\<close>), or some other value that has no
  \<^verbatim>\<open>toBase58\<close> method (\<open>NotAKey\<close>). The call \<^verbatim>\<open>x.toBase58()\<close> raises \<^verbatim>\<open>TypeError\<close> on
  the last two.
\<close>

datatype js_account = PublicKey string | Nullish | NotAKey

fun toBase58 :: "js_account \<Rightarrow> error + string" where
  "toBase58 (PublicKey a) = Inr a"
| "toBase58 Nullish = Inl TypeError"
| "toBase58 NotAKey = Inl TypeError"

fun is_key :: "js_account \<Rightarrow> bool" where
  "is_key (PublicKey a) = True"
| "is_key Nullish = False"
| "is_key NotAKey = False"

text \<open>The \<^verbatim>\<open>parsed.info\<close> object of a parsed instruction; \<open>info_amount\<close> is the number
  that \<^verbatim>\<open>amount\<close> denotes.\<close>

record parsed_info =
  info_source :: "string option"
  info_destination :: "string option"
  info_amount :: rat
  info_mint :: "string option"
  info_mintAuthority :: "string option"

record parsed_data =
  parsed_type :: "string option"
  info :: "parsed_info option"

text \<open>An instruction of a parsed transaction; \<open>programId\<close> is the base58 text of the
  program id, which every instruction of a parsed transaction carries.\<close>

record instruction =
  programId :: string
  accounts :: "js_account list option"
  parsed :: "parsed_data option"

text \<open>\<^verbatim>\<open>ix.parsed?.type\<close>\<close>

definition parsed_type_of :: "instruction \<Rightarrow> string option" where
  "parsed_type_of ix = (case parsed ix of None \<Rightarrow> None | Some p \<Rightarrow> parsed_type p)"

text \<open>A transaction as \<^verbatim>\<open>getRecentTransactions\<close> builds it. \<open>tx_instructions\<close> is
  \<^verbatim>\<open>tx.instructions\<close> (\<open>None\<close> when the property is missing), \<open>tx_type\<close> is
  \<^verbatim>\<open>tx.type\<close>, \<open>details\<close> tells whether \<^verbatim>\<open>tx.details\<close> is truthy and \<open>tx_volumeSOL\<close>
  is \<^verbatim>\<open>tx.meta.volumeSOL\<close>.\<close>

record transaction =
  signature :: string
  tx_instructions :: "instruction list option"
  isNonStandard :: bool
  tx_type :: string
  details :: bool
  tx_volumeSOL :: rat

section \<open>TransactionClassifier (src/lib/transactions.js, \<^verbatim>\<open>inferTransactionType\<close>)\<close>

definition TOKEN_PROGRAM :: string where
  "TOKEN_PROGRAM = ''TokenkegQfeZyiNwAJbNbGKPFXCWuBvf9Ss623VQ5DA''"

text \<open>The four predicates passed to \<^verbatim>\<open>instructions.some\<close>, and the token program test.\<close>

definition governance_marker :: "instruction \<Rightarrow> bool" where
  "governance_marker ix =
     (programId ix = ''GovER5Lthms3bLBqWub97yVrMmEogzX7xNjdXpPPCVZw'' \<or>
      programId ix = ''SMPLecHpvtyTWca6gwQLoCFN33w41rmatZTxM4W3fS7'' \<or>
      parsed_type_of ix = Some ''createProposal'' \<or>
      parsed_type_of ix = Some ''vote'')"

definition token_instruction :: "instruction \<Rightarrow> bool" where
  "token_instruction ix = (programId ix = TOKEN_PROGRAM)"

definition swap_marker :: "string \<Rightarrow> instruction \<Rightarrow> bool" where
  "swap_marker programAddress ix =
     (programId ix \<in> set [''675kPX9MHTjS2zt1qfr1NYHuzeLXfQM9H24wFSUt1Mp8'',
                          ''pAMMBay6oceH9fJKBRHGP5D4bD4sWpmSwMn52FMfXEA'',
                          programAddress])"

definition nft_marker :: "instruction \<Rightarrow> bool" where
  "nft_marker ix =
     (programId ix = ''metaqbxxUerdq28cj1RbAWkYQm3ybzjb6a8bt518x1s'' \<or>
      parsed_type_of ix = Some ''mintNFT'')"

text \<open>Lines 230 to 235: when some instruction is of the token program, the first such
  instruction decides; \<open>None\<close> when no \<^verbatim>\<open>return\<close> is taken. (\<^verbatim>\<open>find\<close> cannot fail after
  \<^verbatim>\<open>some\<close> succeeded.)\<close>

definition token_subtype :: "instruction list \<Rightarrow> string option" where
  "token_subtype instrs =
     (if list_ex token_instruction instrs
      then (case find token_instruction instrs of
              None \<Rightarrow> None
            | Some tokenIx \<Rightarrow>
                if parsed_type_of tokenIx = Some ''transfer'' then Some ''transfer''
                else if parsed_type_of tokenIx = Some ''mint'' then Some ''mint''
                else if parsed_type_of tokenIx = Some ''burn'' then Some ''burn''
                else None)
      else None)"

text \<open>\<open>parsedTx\<close> is \<open>None\<close> for a null transaction, otherwise its
  \<^verbatim>\<open>transaction.message.instructions\<close>.\<close>

definition inferTransactionType :: "instruction list option \<Rightarrow> string \<Rightarrow> string" where
  "inferTransactionType parsedTx programAddress =
     (case parsedTx of
        None \<Rightarrow> ''unknown''
      | Some instrs \<Rightarrow>
          if list_ex governance_marker instrs then ''governance''
          else (case token_subtype instrs of
                  Some t \<Rightarrow> t
                | None \<Rightarrow>
                    if list_ex (swap_marker programAddress) instrs then ''swap''
                    else if list_ex nft_marker instrs then ''nft_mint''
                    else if list_ex (\<lambda>ix. programId ix = programAddress) instrs then ''custom''
                    else ''unknown''))"

section \<open>CallGraphBuilder (callGraph.js)\<close>

text \<open>\<^verbatim>\<open>nodes\<close> is a JavaScript \<^verbatim>\<open>Set\<close>: it keeps the order of first insertion and
  adding a member again changes nothing.\<close>

definition add_node :: "'a list \<Rightarrow> 'a \<Rightarrow> 'a list" where
  "add_node ns n = (if n \<in> set ns then ns else ns @ [n])"

text \<open>\<^verbatim>\<open>forEach\<close> with a body that may raise: the first error ends the loop.\<close>

fun forEach :: "('s \<Rightarrow> 'a \<Rightarrow> error + 's) \<Rightarrow> 'a list \<Rightarrow> 's \<Rightarrow> error + 's" where
  "forEach body [] s = Inr s"
| "forEach body (x # xs) s =
     (case body s x of Inl err \<Rightarrow> Inl err | Inr s' \<Rightarrow> forEach body xs s')"

definition graph_instruction ::
  "string \<Rightarrow> string option list \<times> edge list \<Rightarrow> instruction \<Rightarrow>
     error + string option list \<times> edge list" where
  "graph_instruction act st ix =
     (case accounts ix of
        None \<Rightarrow> Inr st
      | Some accs \<Rightarrow>
          if length accs \<ge> 2
          then (case toBase58 (accs ! 0) of Inl err \<Rightarrow> Inl err | Inr from \<Rightarrow>
               (case toBase58 (accs ! 1) of Inl err \<Rightarrow> Inl err | Inr to \<Rightarrow>
                  Inr (add_node (add_node (fst st) (Some from)) (Some to),
                       snd st @ [\<lparr>from_node = from, to_node = to, action = act, edge_count = 1\<rparr>])))
          else Inr st)"

definition graph_transaction ::
  "string option list \<times> edge list \<Rightarrow> transaction \<Rightarrow>
     error + string option list \<times> edge list" where
  "graph_transaction st tx =
     (case tx_instructions tx of
        None \<Rightarrow> Inl TypeError
      | Some instrs \<Rightarrow> forEach (graph_instruction (tx_type tx)) instrs st)"

text \<open>\<^verbatim>\<open>reconstructCallGraph(analysis, transactions)\<close>; the second argument is
  \<^verbatim>\<open>transactions?.transactions\<close>. The node set starts with
  \<^verbatim>\<open>analysis.insights.address\<close>, which the source reads without a check.\<close>

definition reconstructCallGraph_try ::
  "analysis \<Rightarrow> transaction list option \<Rightarrow> error + call_graph" where
  "reconstructCallGraph_try analysis transactions =
     (case analysis of
        None \<Rightarrow> Inl (Error ''Invalid input data for call graph reconstruction'')
      | Some ins \<Rightarrow>
     (case transactions of
        None \<Rightarrow> Inl (Error ''Invalid input data for call graph reconstruction'')
      | Some txs \<Rightarrow>
     (case forEach graph_transaction txs ([address ins], []) of
        Inl err \<Rightarrow> Inl err
      | Inr st \<Rightarrow> Inr \<lparr>nodes = fst st, edges = snd st\<rparr>)))"

definition reconstructCallGraph :: "analysis \<Rightarrow> transaction list option \<Rightarrow> call_graph" where
  "reconstructCallGraph analysis transactions =
     (case reconstructCallGraph_try analysis transactions of
        Inr g \<Rightarrow> g
      | Inl err \<Rightarrow> \<lparr>nodes = [], edges = []\<rparr>)"

text \<open>
  The edges that the loops add, as a function of the transactions alone: an instruction
  with at least two accounts gives one edge, a transaction gives the edges of its
  instructions in order. \<open>add_endpoints\<close> adds the end points of these edges to the
  node set. The lemmas \<open>forEach_graph_instruction\<close> and \<open>forEach_graph_transaction\<close>
  below show that the loops of \<^verbatim>\<open>reconstructCallGraph\<close> compute exactly this.
\<close>

definition instruction_edges :: "string \<Rightarrow> instruction \<Rightarrow> error + edge list" where
  "instruction_edges act ix =
     (case accounts ix of
        None \<Rightarrow> Inr []
      | Some accs \<Rightarrow>
          if length accs \<ge> 2
          then (case toBase58 (accs ! 0) of Inl err \<Rightarrow> Inl err | Inr from \<Rightarrow>
               (case toBase58 (accs ! 1) of Inl err \<Rightarrow> Inl err | Inr to \<Rightarrow>
                  Inr [\<lparr>from_node = from, to_node = to, action = act, edge_count = 1\<rparr>]))
          else Inr [])"

fun collect :: "('a \<Rightarrow> error + edge list) \<Rightarrow> 'a list \<Rightarrow> error + edge list" where
  "collect f [] = Inr []"
| "collect f (x # xs) =
     (case f x of
        Inl err \<Rightarrow> Inl err
      | Inr d \<Rightarrow> (case collect f xs of Inl err \<Rightarrow> Inl err | Inr ds \<Rightarrow> Inr (d @ ds)))"

definition transaction_edges :: "transaction \<Rightarrow> error + edge list" where
  "transaction_edges tx =
     (case tx_instructions tx of
        None \<Rightarrow> Inl TypeError
      | Some instrs \<Rightarrow> collect (instruction_edges (tx_type tx)) instrs)"

definition add_endpoints :: "string option list \<Rightarrow> edge list \<Rightarrow> string option list" where
  "add_endpoints ns d =
     foldl (\<lambda>ms e. add_node (add_node ms (Some (from_node e))) (Some (to_node e))) ns d"

text \<open>A transaction list is well formed when every transaction has its instruction list
  and the first two accounts of every instruction with at least two accounts are public
  keys.\<close>

definition well_formed_instruction :: "instruction \<Rightarrow> bool" where
  "well_formed_instruction ix =
     (case accounts ix of
        None \<Rightarrow> True
      | Some accs \<Rightarrow> length accs \<ge> 2 \<longrightarrow> is_key (accs ! 0) \<and> is_key (accs ! 1))"

definition well_formed_transaction :: "transaction \<Rightarrow> bool" where
  "well_formed_transaction tx =
     (case tx_instructions tx of None \<Rightarrow> False | Some instrs \<Rightarrow> list_all well_formed_instruction instrs)"

definition well_formed :: "transaction list \<Rightarrow> bool" where
  "well_formed txs = list_all well_formed_transaction txs"

section \<open>Fetching with retry (src/lib/transactions.js, \<^verbatim>\<open>getRecentTransactions\<close>)\<close>

record transaction_data =
  transactions :: "transaction list"
  economicInsights :: economic_insights

definition createFallback :: transaction_data where
  "createFallback =
     \<lparr>transactions = [],
      economicInsights =
        \<lparr>totalVolumeSOL = Some 0,
         averageFeeSOL = Some 0,
         transactionCount = Some 0,
         transactionTypes = Some
           \<lparr>swaps = Some \<lparr>count_of = Some 0, volumeSOL = Some 0\<rparr>,
            transfers = Some \<lparr>count_of = Some 0, volumeSOL = Some 0\<rparr>,
            mints = Some \<lparr>count_of = Some 0, volumeSOL = Some 0\<rparr>,
            burns = Some \<lparr>count_of = Some 0, volumeSOL = Some 0\<rparr>,
            governance = Some \<lparr>count_of = Some 0, volumeSOL = Some 0\<rparr>,
            nftMints = Some \<lparr>count_of = Some 0, volumeSOL = Some 0\<rparr>,
            others = Some \<lparr>count_of = Some 0, volumeSOL = Some 0\<rparr>\<rparr>,
         suspiciousVolume = Some 0,
         tokenFlowInsights = Some \<lparr>topOutflows = [], topInflows = [], concentrationRisk = False\<rparr>,
         transactionVolumeAnalysis =
           Some \<lparr>meanVolumeSOL = Some 0, stdDevVolumeSOL = Some 0, highVolatility = False\<rparr>\<rparr>\<rparr>"

text \<open>
  What one pass through the \<^verbatim>\<open>try\<close> block of the loop does with the answer of the data
  source: \<open>RateLimited\<close> is a response with status 429; \<open>Thrown\<close> is any exception
  raised in the block (a rejected fetch, a response that is not ok, data that is not an
  array, a failure while the transactions are parsed and aggregated); \<open>Computed r\<close> is
  the block running to its \<^verbatim>\<open>return result\<close> with the result \<open>r\<close>.
  The data source is the function that gives the outcome of each attempt, counted
  from 0.
\<close>

datatype fetch_outcome = Thrown | RateLimited | Computed transaction_data

fun failed :: "fetch_outcome \<Rightarrow> bool" where
  "failed Thrown = True"
| "failed RateLimited = True"
| "failed (Computed r) = False"

definition maxRetries :: nat where
  "maxRetries = 5"

definition retryDelays :: "nat list" where
  "retryDelays = [1000, 2000, 4000, 8000, 16000]"

text \<open>
  The \<^verbatim>\<open>for\<close> loop. The state is the attempt counter and the list of delays waited so
  far, in milliseconds; the result is the returned value, the delays waited and the
  value stored in the cache, if any. A 429 at the last attempt throws inside the
  \<^verbatim>\<open>try\<close> block and is caught by the same \<^verbatim>\<open>catch\<close>, which returns the fallback at the
  last attempt. The final line is the return after the loop.
\<close>

function attempt_loop ::
  "(nat \<Rightarrow> fetch_outcome) \<Rightarrow> nat \<Rightarrow> nat list \<Rightarrow> transaction_data \<times> nat list \<times> transaction_data option" where
  "attempt_loop source attempt waited =
     (if attempt \<le> maxRetries
      then (case source attempt of
              RateLimited \<Rightarrow>
                if attempt = maxRetries then (createFallback, waited, None)
                else attempt_loop source (attempt + 1) (waited @ [retryDelays ! attempt])
            | Thrown \<Rightarrow>
                if attempt = maxRetries then (createFallback, waited, None)
                else attempt_loop source (attempt + 1) (waited @ [retryDelays ! attempt])
            | Computed result \<Rightarrow> (result, waited, Some result))
      else (createFallback, waited, None))"
  by pat_completeness auto
termination
  by (relation "measure (\<lambda>(source, attempt, waited). maxRetries + 1 - attempt)") auto

declare attempt_loop.simps [simp del]

text \<open>
  \<^verbatim>\<open>getRecentTransactions\<close>: \<open>apiKey\<close> is \<^verbatim>\<open>process.env.HELIUS_API_KEY\<close> (missing or
  empty is falsy), \<open>cached\<close> is what \<^verbatim>\<open>cache.get(cacheKey)\<close> finds. \<open>Inl\<close> is the
  error raised to the caller.
\<close>

definition getRecentTransactions ::
  "string option \<Rightarrow> transaction_data option \<Rightarrow> (nat \<Rightarrow> fetch_outcome) \<Rightarrow>
     error + transaction_data \<times> nat list \<times> transaction_data option" where
  "getRecentTransactions apiKey cached source =
     (if apiKey = None \<or> apiKey = Some []
      then Inl (Error ''HELIUS_API_KEY not set in .env'')
      else (case cached of
              Some hit \<Rightarrow> Inr (hit, [], Some hit)
            | None \<Rightarrow> Inr (attempt_loop source 0 [])))"

section \<open>IEEE double arithmetic\<close>

text \<open>
  A finite double is the rational number it denotes. An arithmetic operation of
  JavaScript on finite doubles gives the exact result rounded to the nearest double,
  ties to the even significand: \<open>round_double\<close>. A double is \<open>m * 2 ^ e\<close> with an
  integer \<open>\<bar>m\<bar> < 2 ^ 53\<close> and \<open>e \<ge> -1074\<close>; for \<open>x\<close> with \<open>2 ^ k \<le> \<bar>x\<bar> < 2 ^ (k + 1)\<close>
  (\<open>k\<close> is \<open>binade \<bar>x\<bar>\<close>) the exponent is \<open>k - 52\<close>, but not less than \<open>-1074\<close>
  (subnormal numbers), and \<open>m\<close> is \<open>\<bar>x\<bar> / 2 ^ e\<close> rounded to the nearest integer. Results
  beyond the largest double (infinities) and \<^verbatim>\<open>NaN\<close> are not modelled.
\<close>

function bit_length :: "int \<Rightarrow> int" where
  "bit_length n = (if n \<le> 0 then 0 else 1 + bit_length (n div 2))"
  by pat_completeness auto
termination
  by (relation "measure nat") auto

declare bit_length.simps [simp del]

definition pow2 :: "int \<Rightarrow> rat" where
  "pow2 e = (if 0 \<le> e then 2 ^ nat e else 1 / 2 ^ nat (- e))"

definition round_half_even :: "rat \<Rightarrow> int" where
  "round_half_even x =
     (let f = \<lfloor>x\<rfloor>; d = x - of_int f
      in if d < 1/2 then f
         else if 1/2 < d then f + 1
         else if even f then f else f + 1)"

text \<open>For \<open>x = p / q > 0\<close> in lowest terms, with \<open>p\<close> of \<open>a\<close> bits and \<open>q\<close> of \<open>b\<close> bits,
  \<open>2 ^ (a - b - 1) < x < 2 ^ (a - b + 1)\<close>; one comparison decides the binade.\<close>

definition binade :: "rat \<Rightarrow> int" where
  "binade x =
     (let k = bit_length (fst (quotient_of x)) - bit_length (snd (quotient_of x))
      in if pow2 k \<le> x then k else k - 1)"

definition round_double :: "rat \<Rightarrow> rat" where
  "round_double x =
     (if x = 0 then 0
      else let e = max (binade \<bar>x\<bar> - 52) (- 1074);
               m = round_half_even (\<bar>x\<bar> / pow2 e)
           in sgn x * of_int m * pow2 e)"

definition double_add :: "rat \<Rightarrow> rat \<Rightarrow> rat" where
  "double_add x y = round_double (x + y)"

definition double_times :: "rat \<Rightarrow> rat \<Rightarrow> rat" where
  "double_times x y = round_double (x * y)"

definition double_divide :: "rat \<Rightarrow> rat \<Rightarrow> rat" where
  "double_divide x y = round_double (x / y)"

text \<open>The literal \<^verbatim>\<open>0.8\<close> is the double nearest to 4/5.\<close>

definition double_0_8 :: rat where
  "double_0_8 = 3602879701896397 / 2 ^ 52"

section \<open>Token flows (src/lib/transactions.js, \<^verbatim>\<open>analyzeTokenFlows\<close>)\<close>

text \<open>\<^verbatim>\<open>accounts[i]?.toBase58()\<close>: \<^verbatim>\<open>undefined\<close> when the array has no element \<open>i\<close> or
  the element is \<^verbatim>\<open>null\<close> or \<^verbatim>\<open>undefined\<close>; the call raises only on a value without the
  method.\<close>

definition optional_toBase58 :: "js_account list \<Rightarrow> nat \<Rightarrow> error + string option" where
  "optional_toBase58 accs i =
     (if i < length accs
      then (case accs ! i of
              PublicKey a \<Rightarrow> Inr (Some a)
            | Nullish \<Rightarrow> Inr None
            | NotAKey \<Rightarrow> Inl TypeError)
      else Inr None)"

text \<open>A string that may be \<^verbatim>\<open>undefined\<close> is truthy when it is present and not empty.\<close>

definition truthy :: "string option \<Rightarrow> bool" where
  "truthy v = (case v of None \<Rightarrow> False | Some str \<Rightarrow> str \<noteq> [])"

text \<open>\<^verbatim>\<open>ix.parsed?.info?.mint\<close>\<close>

definition parsed_mint_of :: "instruction \<Rightarrow> string option" where
  "parsed_mint_of ix =
     (case parsed ix of
        None \<Rightarrow> None
      | Some p \<Rightarrow> (case info p of None \<Rightarrow> None | Some pinfo \<Rightarrow> info_mint pinfo))"

text \<open>
  \<^verbatim>\<open>getTokenDecimals(mint)\<close>. The decimals of any other mint come from the token
  metadata service; \<open>metadataDecimals\<close> stands for that answer.
\<close>

definition getTokenDecimals :: "(string option \<Rightarrow> nat) \<Rightarrow> string option \<Rightarrow> nat" where
  "getTokenDecimals metadataDecimals m =
     (if m = Some ''SOL'' \<or> m = Some ''GOVERNANCE'' then 9 else metadataDecimals m)"

text \<open>The variables \<^verbatim>\<open>flowType, source, destination, amount, mint\<close> after the
  \<^verbatim>\<open>if\<close> chain of the inner loop; \<open>None\<close> when no branch was taken.\<close>

record candidate =
  cand_flowType :: string
  cand_source :: "string option"
  cand_destination :: "string option"
  cand_amount :: rat
  cand_mint :: "string option"

definition instruction_candidate ::
  "string \<Rightarrow> transaction \<Rightarrow> instruction \<Rightarrow> error + candidate option" where
  "instruction_candidate addr tx ix =
     (if programId ix = TOKEN_PROGRAM \<and> parsed_type_of ix = Some ''transfer''
      then (case parsed ix of
              None \<Rightarrow> Inl TypeError
            | Some p \<Rightarrow>
               (case info p of
                  None \<Rightarrow> Inl TypeError
                | Some pinfo \<Rightarrow>
                    Inr (Some \<lparr>cand_flowType = ''transfer'', cand_source = info_source pinfo,
                               cand_destination = info_destination pinfo,
                               cand_amount = info_amount pinfo, cand_mint = info_mint pinfo\<rparr>)))
      else if tx_type tx \<in> set [''swap'', ''custom''] \<and>
              (case accounts ix of None \<Rightarrow> False | Some accs \<Rightarrow> length accs \<ge> 2)
      then (case accounts ix of
              None \<Rightarrow> Inl TypeError
            | Some accs \<Rightarrow>
               (case optional_toBase58 accs 0 of Inl err \<Rightarrow> Inl err | Inr src \<Rightarrow>
               (case optional_toBase58 accs 1 of Inl err \<Rightarrow> Inl err | Inr dst \<Rightarrow>
                  Inr (Some \<lparr>cand_flowType = ''swap'', cand_source = src, cand_destination = dst,
                             cand_amount = (if tx_volumeSOL tx = 0 then 1 else tx_volumeSOL tx),
                             cand_mint = (if truthy (parsed_mint_of ix) then parsed_mint_of ix
                                          else Some ''SOL'')\<rparr>))))
      else if tx_type tx = ''governance'' \<and>
              (case accounts ix of None \<Rightarrow> False | Some accs \<Rightarrow> length accs \<ge> 1)
      then (case accounts ix of
              None \<Rightarrow> Inl TypeError
            | Some accs \<Rightarrow>
               (case optional_toBase58 accs 0 of Inl err \<Rightarrow> Inl err | Inr src \<Rightarrow>
                  Inr (Some \<lparr>cand_flowType = ''vote'', cand_source = src,
                             cand_destination = Some addr, cand_amount = 1,
                             cand_mint = Some ''GOVERNANCE''\<rparr>)))
      else if tx_type tx = ''nft_mint'' \<and> truthy (parsed_mint_of ix)
      then (case parsed ix of
              None \<Rightarrow> Inl TypeError
            | Some p \<Rightarrow>
               (case info p of
                  None \<Rightarrow> Inl TypeError
                | Some pinfo \<Rightarrow>
                   (case (if truthy (info_mintAuthority pinfo) then Inr (info_mintAuthority pinfo)
                          else (case accounts ix of
                                  None \<Rightarrow> Inl TypeError
                                | Some accs \<Rightarrow> optional_toBase58 accs 0)) of
                      Inl err \<Rightarrow> Inl err
                    | Inr dst \<Rightarrow>
                        Inr (Some \<lparr>cand_flowType = ''nft_mint'', cand_source = Some addr,
                                   cand_destination = dst, cand_amount = 1,
                                   cand_mint = info_mint pinfo\<rparr>))))
      else Inr None)"

text \<open>\<^verbatim>\<open>parseFloat\<close> reads a number, or the decimal string of one, as the nearest
  double; a double is left as it is.\<close>

definition parseFloat :: "rat \<Rightarrow> rat" where
  "parseFloat x = round_double x"

text \<open>The second half of the inner loop body: the amount in token units and the push
  onto \<^verbatim>\<open>outflows\<close> or \<^verbatim>\<open>inflows\<close>. The state is the pair of the two lists.
  \<^verbatim>\<open>Math.pow(10, d)\<close> is taken as the double nearest to the power of ten, which is the
  power itself up to \<open>d = 22\<close>; the quotient is rounded.\<close>

definition record_flow ::
  "(string option \<Rightarrow> nat) \<Rightarrow> string \<Rightarrow> flow list \<times> flow list \<Rightarrow> candidate \<Rightarrow> flow list \<times> flow list" where
  "record_flow metadataDecimals addr st c =
     (case cand_source c of None \<Rightarrow> st | Some src \<Rightarrow>
     (case cand_destination c of None \<Rightarrow> st | Some dst \<Rightarrow>
        if cand_flowType c \<noteq> [] \<and> src \<noteq> [] \<and> dst \<noteq> []
        then
          let parsedAmount =
                (if cand_mint c = Some ''SOL'' \<or> cand_mint c = Some ''GOVERNANCE''
                 then cand_amount c
                 else double_divide (parseFloat (cand_amount c))
                        (round_double (10 ^ getTokenDecimals metadataDecimals (cand_mint c))))
          in if src = addr
             then (fst st @ [\<lparr>account = dst, amount = parsedAmount,
                               token = cand_mint c, mint = cand_mint c,
                               flowType = cand_flowType c, txCount = 1\<rparr>], snd st)
             else if dst = addr
             then (fst st, snd st @ [\<lparr>account = src, amount = parsedAmount,
                                       token = cand_mint c, mint = cand_mint c,
                                       flowType = cand_flowType c, txCount = 1\<rparr>])
             else st
        else st))"

definition flow_instruction ::
  "(string option \<Rightarrow> nat) \<Rightarrow> string \<Rightarrow> transaction \<Rightarrow> flow list \<times> flow list \<Rightarrow> instruction \<Rightarrow>
     error + flow list \<times> flow list" where
  "flow_instruction metadataDecimals addr tx st ix =
     (case instruction_candidate addr tx ix of
        Inl err \<Rightarrow> Inl err
      | Inr None \<Rightarrow> Inr st
      | Inr (Some c) \<Rightarrow> Inr (record_flow metadataDecimals addr st c))"

definition flow_transaction ::
  "(string option \<Rightarrow> nat) \<Rightarrow> string \<Rightarrow> flow list \<times> flow list \<Rightarrow> transaction \<Rightarrow>
     error + flow list \<times> flow list" where
  "flow_transaction metadataDecimals addr st tx =
     (if \<not> details tx then Inr st
      else (case tx_instructions tx of
              None \<Rightarrow> Inl TypeError
            | Some instrs \<Rightarrow> forEach (flow_instruction metadataDecimals addr tx) instrs st))"

text \<open>Lines 270 to 310: the two loops, giving \<^verbatim>\<open>outflows\<close> and \<^verbatim>\<open>inflows\<close>.\<close>

definition extract_flows ::
  "(string option \<Rightarrow> nat) \<Rightarrow> string \<Rightarrow> transaction list \<Rightarrow> error + flow list \<times> flow list" where
  "extract_flows metadataDecimals addr txs =
     forEach (flow_transaction metadataDecimals addr) txs ([], [])"

text \<open>
  \<^verbatim>\<open>aggregateFlows\<close>. The key is the template string of the source, in which an
  undefined mint reads "undefined". The accumulator object is the list of its entries
  in the order in which the keys were first set, which is the order of
  \<^verbatim>\<open>Object.values\<close> for keys that are not array indices. A new key is entered with the
  flow's fields and amount and count 0; then the entry of the key takes the amount,
  added in doubles, and one more transaction. \<^verbatim>\<open>sort\<close> is stable, and
  \<open>(a, b) => b.amount - a.amount\<close> orders by descending amount (the difference of two
  finite doubles has the sign of their exact difference), which is ascending order of
  the negated amount.
\<close>

definition mint_text :: "string option \<Rightarrow> string" where
  "mint_text m = (case m of None \<Rightarrow> ''undefined'' | Some str \<Rightarrow> str)"

definition flow_key :: "flow \<Rightarrow> string" where
  "flow_key fl = account fl @ ''_'' @ mint_text (mint fl) @ ''_'' @ flowType fl"

definition aggregate_step :: "(string \<times> flow) list \<Rightarrow> flow \<Rightarrow> (string \<times> flow) list" where
  "aggregate_step acc fl =
     (let key = flow_key fl;
          acc1 = (if map_of acc key = None then acc @ [(key, fl\<lparr>amount := 0, txCount := 0\<rparr>)]
                  else acc)
      in map (\<lambda>(k, g). if k = key
                         then (k, g\<lparr>amount := double_add (amount g) (amount fl),
                                    txCount := txCount g + 1\<rparr>)
                         else (k, g)) acc1)"

definition aggregateFlows :: "flow list \<Rightarrow> flow list" where
  "aggregateFlows flows =
     sort_key (\<lambda>g. - amount g) (map snd (foldl aggregate_step [] flows))"

text \<open>Lines 323 to 329. The total of the kept outflow groups is added up in doubles
  from 0, and its product with 0.8 is rounded.\<close>

definition summarize_flows :: "flow list \<Rightarrow> flow list \<Rightarrow> token_flow_insights" where
  "summarize_flows outflows inflows =
     (let top_out = take 5 (aggregateFlows outflows);
          top_in = take 5 (aggregateFlows inflows)
      in \<lparr>topOutflows = top_out,
          topInflows = top_in,
          concentrationRisk =
            (length top_out > 0 \<and>
             amount (top_out ! 0) >
               double_times double_0_8 (foldl (\<lambda>total f. double_add total (amount f)) 0 top_out))\<rparr>)"

definition analyzeTokenFlows ::
  "(string option \<Rightarrow> nat) \<Rightarrow> transaction list \<Rightarrow> string \<Rightarrow> error + token_flow_insights" where
  "analyzeTokenFlows metadataDecimals txs addr =
     (case extract_flows metadataDecimals addr txs of
        Inl err \<Rightarrow> Inl err
      | Inr st \<Rightarrow> Inr (summarize_flows (fst st) (snd st)))"

section \<open>Example inputs\<close>

definition example_insights :: insights where
  "example_insights =
     \<lparr>instructions = Some 512, syscalls = Some [], suspectedType = ''unknown'',
      reentrancyRisk = ''Low'', controlFlow = \<lparr>branches = 51, loops = 25\<rparr>,
      usesBorsh = False, hiddenMint = False, authorityHolders = Some [''8x7y...z9k2''],
      address = Some ''Prog1111''\<rparr>"

definition zero_stats :: type_stats where
  "zero_stats = \<lparr>count_of = Some 0, volumeSOL = Some 0\<rparr>"

text \<open>The scenario of the specification: total volume 100 SOL, of which 60 suspicious.\<close>

definition example_economy :: economic_insights where
  "example_economy =
     \<lparr>totalVolumeSOL = Some 100, averageFeeSOL = Some 0, transactionCount = Some 20,
      transactionTypes = Some \<lparr>swaps = Some zero_stats, transfers = Some zero_stats,
        mints = Some zero_stats, burns = Some zero_stats, governance = Some zero_stats,
        nftMints = Some zero_stats, others = Some zero_stats\<rparr>,
      suspiciousVolume = Some 60,
      tokenFlowInsights = Some \<lparr>topOutflows = [], topInflows = [], concentrationRisk = False\<rparr>,
      transactionVolumeAnalysis =
        Some \<lparr>meanVolumeSOL = Some 5, stdDevVolumeSOL = Some 4, highVolatility = True\<rparr>\<rparr>"

text \<open>A buffer of 4096 zero bytes: it holds none of the marker byte sequences.\<close>

definition zero_buffer :: "byte list" where
  "zero_buffer = replicate 4096 0"

text \<open>A token-program instruction of parsed type "approve", an instruction of the first
  swap venue, and a transaction that invokes both.\<close>

definition approve_instruction :: instruction where
  "approve_instruction =
     \<lparr>programId = ''TokenkegQfeZyiNwAJbNbGKPFXCWuBvf9Ss623VQ5DA'', accounts = None,
      parsed = Some \<lparr>parsed_type = Some ''approve'', info = None\<rparr>\<rparr>"

definition transfer_instruction :: instruction where
  "transfer_instruction =
     \<lparr>programId = ''TokenkegQfeZyiNwAJbNbGKPFXCWuBvf9Ss623VQ5DA'', accounts = None,
      parsed = Some \<lparr>parsed_type = Some ''transfer'', info = None\<rparr>\<rparr>"

definition venue_instruction :: instruction where
  "venue_instruction =
     \<lparr>programId = ''675kPX9MHTjS2zt1qfr1NYHuzeLXfQM9H24wFSUt1Mp8'',
      accounts = Some [PublicKey ''Alice111'', PublicKey ''Bob22222''], parsed = None\<rparr>"

text \<open>A well-formed transaction, and one whose instruction list is missing.\<close>

definition swap_transaction :: transaction where
  "swap_transaction =
     \<lparr>signature = ''sig1'', tx_instructions = Some [venue_instruction], isNonStandard = True,
      tx_type = ''swap'', details = True, tx_volumeSOL = 2\<rparr>"

definition broken_transaction :: transaction where
  "broken_transaction =
     \<lparr>signature = ''sig2'', tx_instructions = None, isNonStandard = True,
      tx_type = ''unknown'', details = False, tx_volumeSOL = 0\<rparr>"

text \<open>Insights without address, as a caller's fallback writes them, and a transaction
  whose instruction has a null first account.\<close>

definition addressless_insights :: insights where
  "addressless_insights =
     \<lparr>instructions = Some 0, syscalls = None, suspectedType = ''unknown'',
      reentrancyRisk = ''Low'', controlFlow = \<lparr>branches = 0, loops = 0\<rparr>,
      usesBorsh = False, hiddenMint = False, authorityHolders = Some [],
      address = None\<rparr>"

definition null_account_transaction :: transaction where
  "null_account_transaction =
     \<lparr>signature = ''sig3'',
      tx_instructions = Some [\<lparr>programId = ''Prog1111'',
                               accounts = Some [Nullish, PublicKey ''Bob22222''],
                               parsed = None\<rparr>],
      isNonStandard = True, tx_type = ''swap'', details = True, tx_volumeSOL = 2\<rparr>"

text \<open>A computed result with one transaction, a data source that fails four times and
  then answers, one that is rate limited for ever and one that always throws.\<close>

definition example_data :: transaction_data where
  "example_data = \<lparr>transactions = [swap_transaction], economicInsights = example_economy\<rparr>"

definition recovering_source :: "nat \<Rightarrow> fetch_outcome" where
  "recovering_source i = (if i < 2 then Thrown else if i < 4 then RateLimited else Computed example_data)"

definition limited_source :: "nat \<Rightarrow> fetch_outcome" where
  "limited_source i = RateLimited"

text \<open>A swap transaction of the analysed program that moves \<open>v\<close> SOL from the program
  to the account \<open>dest\<close>, and seven of them: one of 81 SOL and six of 4 SOL, each to its
  own account.\<close>

definition outflow_transaction :: "string \<Rightarrow> rat \<Rightarrow> transaction" where
  "outflow_transaction dest v =
     \<lparr>signature = ''sig'', 
      tx_instructions = Some [\<lparr>programId = ''Prog1111'',
                               accounts = Some [PublicKey ''Prog1111'', PublicKey dest],
                               parsed = None\<rparr>],
      isNonStandard = True, tx_type = ''swap'', details = True, tx_volumeSOL = v\<rparr>"

definition seven_outflows :: "transaction list" where
  "seven_outflows =
     [outflow_transaction ''Big'' 81,
      outflow_transaction ''D1'' 4, outflow_transaction ''D2'' 4, outflow_transaction ''D3'' 4,
      outflow_transaction ''D4'' 4, outflow_transaction ''D5'' 4, outflow_transaction ''D6'' 4]"

definition two_outflows :: "transaction list" where
  "two_outflows =
     [outflow_transaction ''D1'' 1, outflow_transaction ''Big'' 18, outflow_transaction ''D1'' 1]"

text \<open>The flow that such a transaction gives, with the count \<open>n\<close>.\<close>

definition swap_flow :: "string \<Rightarrow> rat \<Rightarrow> nat \<Rightarrow> flow" where
  "swap_flow dest v n =
     \<lparr>account = dest, amount = v, token = Some ''SOL'', mint = Some ''SOL'',
      flowType = ''swap'', txCount = n\<rparr>"

text \<open>Three outflows of 0.2, 0.03 and 0.02 SOL, and three of 0.0312, 0.00468 and 0.00312
  SOL (the doubles nearest to these decimals).\<close>

definition boundary_outflows :: "transaction list" where
  "boundary_outflows =
     [outflow_transaction ''A'' (round_double (2/10)),
      outflow_transaction ''B'' (round_double (3/100)),
      outflow_transaction ''C'' (round_double (2/100))]"

definition boundary_outflows_2 :: "transaction list" where
  "boundary_outflows_2 =
     [outflow_transaction ''A'' (round_double (312/10000)),
      outflow_transaction ''B'' (round_double (468/100000)),
      outflow_transaction ''C'' (round_double (312/100000))]"

text \<open>A transfer of 1234567 base units of a token with 9 decimals out of the program.\<close>

definition token_transfer_transaction :: transaction where
  "token_transfer_transaction =
     \<lparr>signature = ''sig4'',
      tx_instructions =
        Some [\<lparr>programId = ''TokenkegQfeZyiNwAJbNbGKPFXCWuBvf9Ss623VQ5DA'', accounts = None,
               parsed = Some \<lparr>parsed_type = Some ''transfer'',
                               info = Some \<lparr>info_source = Some ''Prog1111'',
                                            info_destination = Some ''Bob22222'',
                                            info_amount = 1234567,
                                            info_mint = Some ''MintAAAA'',
                                            info_mintAuthority = None\<rparr>\<rparr>\<rparr>],
      isNonStandard = False, tx_type = ''transfer'', details = True, tx_volumeSOL = 0\<rparr>"

definition no_metadata :: "string option \<Rightarrow> nat" where
  "no_metadata m = 9"

definition empty_graph :: call_graph where
  "empty_graph = \<lparr>nodes = [], edges = []\<rparr>"

section \<open>Properties of the SafetyAssessor\<close>

text \<open>
  C1. When \<^verbatim>\<open>analysis.insights\<close> and \<^verbatim>\<open>transactions.economicInsights\<close> are present,
  \<^verbatim>\<open>assessSafety\<close> returns the score 80 minus 20 for the hidden-mint signal, minus 10
  for exactly one authority insight, minus 15 when the suspicious volume exceeds half of
  the total volume, minus 10 when the call graph has more than 50 edges, clamped to
  [0,100]; the returned risks are exactly one entry per triggered rule, in rule order,
  and nothing for a rule that did not trigger. The last line says what the comparison
  of the volumes is when both are numbers \<open>s\<close> and \<open>t\<close>.
\<close>

theorem assessSafety_score_and_risks:
  "assessSafety (Some ins) authorityInsights (Some eco) callGraph =
     \<lparr>safetyScore =
        max 0 (min 100
          (80 - (if hiddenMint ins then 20 else 0)
              - (if length authorityInsights = 1 then 10 else 0)
              - (if js_gt (suspiciousVolume eco) (js_times (totalVolumeSOL eco) (1/2)) then 15 else 0)
              - (if length (edges callGraph) > 50 then 10 else 0))),
      risks =
        (if hiddenMint ins then [hiddenMint_risk] else []) @
        (if length authorityInsights = 1 then [singleAuthority_risk] else []) @
        (if js_gt (suspiciousVolume eco) (js_times (totalVolumeSOL eco) (1/2))
         then [suspiciousVolume_risk] else []) @
        (if length (edges callGraph) > 50 then [complexInteractions_risk] else [])\<rparr> \<and>
   (js_gt (Some s) (js_times (Some t) (1/2)) \<longleftrightarrow> t / 2 < s)"
  by (simp add: assessSafety_def assessSafety_try_def Let_def js_gt_def js_times_def)

theorem assessSafety_score_and_risks_witness:
  "assessSafety (Some example_insights) [] (Some example_economy) empty_graph =
     \<lparr>safetyScore = 65, risks = [suspiciousVolume_risk]\<rparr>"
  using assessSafety_score_and_risks [of example_insights "[]" example_economy empty_graph 60 100]
  by (simp add: example_insights_def example_economy_def empty_graph_def js_gt_def js_times_def)

section \<open>Ranges of the scores\<close>

lemma assessSafety_try_range:
  "assessSafety_try a ai e cg = Inr r \<Longrightarrow> 25 \<le> safetyScore r \<and> safetyScore r \<le> 80"
  unfolding assessSafety_try_def Let_def
  by (auto split: option.splits if_splits)

lemma scamProbability_of_range:
  "scamProbability_of ins eco = Inr s \<Longrightarrow> 10 \<le> s \<and> s \<le> 90"
  unfolding scamProbability_of_def Let_def
  by (auto split: option.splits if_splits)

lemma launderingLikelihood_of_range:
  "launderingLikelihood_of ins eco = Inr s \<Longrightarrow> 10 \<le> s \<and> s \<le> 80"
  unfolding launderingLikelihood_of_def Let_def
  by (auto split: option.splits if_splits)

lemma inferBehavior_try_range:
  "inferBehavior_try a e = Inr r \<Longrightarrow>
     10 \<le> scamProbability r \<and> scamProbability r \<le> 90 \<and>
     10 \<le> launderingLikelihood r \<and> launderingLikelihood r \<le> 80"
  unfolding inferBehavior_try_def
  by (auto split: option.splits sum.splits
           dest!: scamProbability_of_range launderingLikelihood_of_range)

lemma predictRisk_try_range:
  "predictRisk_try ai e sa = Inr r \<Longrightarrow> 30 \<le> riskLikelihood r \<and> riskLikelihood r \<le> 90"
  unfolding predictRisk_try_def Let_def
  by (auto split: option.splits if_splits)

text \<open>
  C2. For all inputs, present or missing, the safety score of \<^verbatim>\<open>assessSafety\<close>, the
  scam probability and the laundering likelihood of \<^verbatim>\<open>inferBehavior\<close> and the risk
  likelihood of \<^verbatim>\<open>predictRisk\<close> lie in [0,100]. The inputs range over the missing
  objects too, so the values returned by the \<^verbatim>\<open>catch\<close> blocks are covered.
\<close>

theorem scores_within_0_100:
  "0 \<le> safetyScore (assessSafety a ai e cg) \<and> safetyScore (assessSafety a ai e cg) \<le> 100 \<and>
   0 \<le> scamProbability (inferBehavior a e) \<and> scamProbability (inferBehavior a e) \<le> 100 \<and>
   0 \<le> launderingLikelihood (inferBehavior a e) \<and> launderingLikelihood (inferBehavior a e) \<le> 100 \<and>
   0 \<le> riskLikelihood (predictRisk ai' e sa) \<and> riskLikelihood (predictRisk ai' e sa) \<le> 100"
proof -
  have safety: "0 \<le> safetyScore (assessSafety a ai e cg) \<and> safetyScore (assessSafety a ai e cg) \<le> 100"
  proof (cases "assessSafety_try a ai e cg")
    case (Inl err)
    then show ?thesis by (simp add: assessSafety_def)
  next
    case (Inr r)
    with assessSafety_try_range [OF Inr] show ?thesis by (simp add: assessSafety_def)
  qed
  have behaviour:
    "0 \<le> scamProbability (inferBehavior a e) \<and> scamProbability (inferBehavior a e) \<le> 100 \<and>
     0 \<le> launderingLikelihood (inferBehavior a e) \<and> launderingLikelihood (inferBehavior a e) \<le> 100"
  proof (cases "inferBehavior_try a e")
    case (Inl err)
    then show ?thesis by (simp add: inferBehavior_def)
  next
    case (Inr r)
    with inferBehavior_try_range [OF Inr] show ?thesis by (simp add: inferBehavior_def)
  qed
  have prediction:
    "0 \<le> riskLikelihood (predictRisk ai' e sa) \<and> riskLikelihood (predictRisk ai' e sa) \<le> 100"
  proof (cases "predictRisk_try ai' e sa")
    case (Inl err)
    then show ?thesis by (simp add: predictRisk_def)
  next
    case (Inr r)
    with predictRisk_try_range [OF Inr] show ?thesis by (simp add: predictRisk_def)
  qed
  from safety behaviour prediction show ?thesis by simp
qed

text \<open>The invariant at the fallback values: with no analysis and no economic insights
  every function returns from its \<^verbatim>\<open>catch\<close> block.\<close>

theorem scores_within_0_100_witness:
  "safetyScore (assessSafety None [] None empty_graph) = 50 \<and>
   scamProbability (inferBehavior None None) = 10 \<and>
   launderingLikelihood (inferBehavior None None) = 10 \<and>
   riskLikelihood (predictRisk None None None) = 30 \<and>
   0 \<le> safetyScore (assessSafety None [] None empty_graph) \<and>
   riskLikelihood (predictRisk None None None) \<le> 100"
  using scores_within_0_100 [of None "[]" None empty_graph None None]
  by (simp add: assessSafety_def assessSafety_try_def inferBehavior_def inferBehavior_try_def
        predictRisk_def predictRisk_try_def)

section \<open>Properties of the RiskPredictor\<close>

text \<open>
  C8. On present inputs \<^verbatim>\<open>predictRisk\<close> starts from 30, adds 20 for high volatility,
  15 for exactly one authority insight and 25 for a safety score below 50, returns the
  sum clamped to at most 100, and predicts "High risk" exactly when the returned
  likelihood exceeds 70, "Low to moderate risk" otherwise.
\<close>

theorem predictRisk_likelihood_and_prediction:
  assumes "transactionVolumeAnalysis eco = Some tva"
  shows "riskLikelihood (predictRisk (Some auths) (Some eco) (Some sa)) =
           min 100 (30 + (if highVolatility tva then 20 else 0)
                       + (if length auths = 1 then 15 else 0)
                       + (if safetyScore sa < 50 then 25 else 0))
       \<and> prediction (predictRisk (Some auths) (Some eco) (Some sa)) =
           (if riskLikelihood (predictRisk (Some auths) (Some eco) (Some sa)) > 70
            then ''High risk'' else ''Low to moderate risk'')"
  using assms
  by (simp add: predictRisk_def predictRisk_try_def Let_def)

theorem predictRisk_likelihood_and_prediction_witness:
  "transactionVolumeAnalysis example_economy =
     Some \<lparr>meanVolumeSOL = Some 5, stdDevVolumeSOL = Some 4, highVolatility = True\<rparr> \<and>
   riskLikelihood (predictRisk (Some []) (Some example_economy)
       (Some \<lparr>safetyScore = 40, risks = []\<rparr>)) = 75 \<and>
   prediction (predictRisk (Some []) (Some example_economy)
       (Some \<lparr>safetyScore = 40, risks = []\<rparr>)) = ''High risk''"
proof -
  have tva: "transactionVolumeAnalysis example_economy =
      Some \<lparr>meanVolumeSOL = Some 5, stdDevVolumeSOL = Some 4, highVolatility = True\<rparr>"
    by (simp add: example_economy_def)
  from predictRisk_likelihood_and_prediction [OF tva, of "[]" "\<lparr>safetyScore = 40, risks = []\<rparr>"] tva
  show ?thesis by simp
qed

section \<open>Properties of the BehaviorInferer\<close>

lemma programTypeConfidence_of_cases:
  "programTypeConfidence_of ins eco = Inr conf \<Longrightarrow>
     conf \<in> {[(''governance'', 90), (''amm'', 5), (''nft'', 5)],
             [(''amm'', 85), (''governance'', 10), (''nft'', 5)],
             [(''nft'', 80), (''amm'', 10), (''governance'', 10)],
             [(''unknown'', 50), (''governance'', 20), (''amm'', 20), (''nft'', 10)]}"
  unfolding programTypeConfidence_of_def
  by (auto split: option.splits if_splits)

lemma inferBehavior_confidence_cases:
  "programTypeConfidence (inferBehavior a e) \<in>
     {[(''governance'', 90), (''amm'', 5), (''nft'', 5)],
      [(''amm'', 85), (''governance'', 10), (''nft'', 5)],
      [(''nft'', 80), (''amm'', 10), (''governance'', 10)],
      [(''unknown'', 50), (''governance'', 20), (''amm'', 20), (''nft'', 10)],
      [(''unknown'', 100)]}"
proof (cases "inferBehavior_try a e")
  case (Inl err)
  then show ?thesis by (simp add: inferBehavior_def)
next
  case (Inr r)
  then obtain ins eco conf where "programTypeConfidence_of ins eco = Inr conf"
      and "programTypeConfidence r = conf"
    unfolding inferBehavior_try_def
    by (auto split: option.splits sum.splits)
  with programTypeConfidence_of_cases [of ins eco conf] Inr show ?thesis
    by (auto simp: inferBehavior_def)
qed

text \<open>
  C10. On every return path of \<^verbatim>\<open>inferBehavior\<close>, the \<^verbatim>\<open>catch\<close> block included, the
  returned \<^verbatim>\<open>programTypeConfidence\<close> is one of the five listed distributions and its
  values sum to exactly 100.
\<close>

theorem programTypeConfidence_sums_to_100:
  "sum_list (map snd (programTypeConfidence (inferBehavior a e))) = 100 \<and>
   programTypeConfidence (inferBehavior a e) \<in>
     {[(''governance'', 90), (''amm'', 5), (''nft'', 5)],
      [(''amm'', 85), (''governance'', 10), (''nft'', 5)],
      [(''nft'', 80), (''amm'', 10), (''governance'', 10)],
      [(''unknown'', 50), (''governance'', 20), (''amm'', 20), (''nft'', 10)],
      [(''unknown'', 100)]}"
  using inferBehavior_confidence_cases [of a e] by auto

theorem programTypeConfidence_sums_to_100_witness:
  "programTypeConfidence (inferBehavior (Some example_insights) (Some example_economy)) =
     [(''unknown'', 50), (''governance'', 20), (''amm'', 20), (''nft'', 10)] \<and>
   sum_list (map snd (programTypeConfidence
     (inferBehavior (Some example_insights) (Some example_economy)))) = 100"
  using programTypeConfidence_sums_to_100 [of "Some example_insights" "Some example_economy"]
  by (simp add: inferBehavior_def inferBehavior_try_def scamProbability_of_def
        launderingLikelihood_of_def programTypeConfidence_of_def example_insights_def
        example_economy_def zero_stats_def js_gt_def js_lt_def js_times_def Let_def)

section \<open>Properties of the BinaryProfiler\<close>

lemma starts_with_iff: "starts_with buf needle \<longleftrightarrow> (\<exists>ss. buf = needle @ ss)"
  by (induction buf needle rule: starts_with.induct) auto

text \<open>\<open>buffer_includes\<close> is the search for a contiguous block.\<close>

lemma buffer_includes_iff:
  "buffer_includes buf needle \<longleftrightarrow> (\<exists>ps ss. buf = ps @ needle @ ss)"
proof (induction buf)
  case Nil
  then show ?case by auto
next
  case (Cons b buf)
  show ?case
  proof
    assume "buffer_includes (b # buf) needle"
    then consider "starts_with (b # buf) needle" | "buffer_includes buf needle" by auto
    then show "\<exists>ps ss. b # buf = ps @ needle @ ss"
    proof cases
      case 1
      then obtain ss where "b # buf = needle @ ss" by (auto simp: starts_with_iff)
      then have "b # buf = [] @ needle @ ss" by simp
      then show ?thesis by blast
    next
      case 2
      with Cons obtain ps ss where "buf = ps @ needle @ ss" by auto
      then have "b # buf = (b # ps) @ needle @ ss" by simp
      then show ?thesis by blast
    qed
  next
    assume "\<exists>ps ss. b # buf = ps @ needle @ ss"
    then obtain ps ss where eq: "b # buf = ps @ needle @ ss" by blast
    show "buffer_includes (b # buf) needle"
    proof (cases ps)
      case Nil
      with eq have "starts_with (b # buf) needle" by (auto simp: starts_with_iff)
      then show ?thesis by simp
    next
      case (Cons p ps')
      with eq have "buf = ps' @ needle @ ss" by simp
      with Cons.IH have "buffer_includes buf needle" by blast
      then show ?thesis by simp
    qed
  qed
qed

lemma buffer_includes_head: "buffer_includes buf (n # needle) \<Longrightarrow> n \<in> set buf"
  by (auto simp: buffer_includes_iff)

lemma floor_eighth: "\<lfloor>(of_nat n :: rat) / 8\<rfloor> = int (n div 8)"
  using floor_divide_of_nat_eq [of n 8, where ?'a = rat] by simp

lemma floor_tenth: "\<lfloor>(of_int (int k) :: rat) * (1/10)\<rfloor> = int (k div 10)"
  using floor_divide_of_nat_eq [of k 10, where ?'a = rat] by simp

lemma floor_twentieth: "\<lfloor>(of_int (int k) :: rat) * (1/20)\<rfloor> = int (k div 20)"
  using floor_divide_of_nat_eq [of k 20, where ?'a = rat] by simp

lemma zero_buffer_markers:
  "\<not> buffer_includes zero_buffer (Buffer_from ''swap'')"
  "\<not> buffer_includes zero_buffer (Buffer_from ''mintNFT'')"
  "\<not> buffer_includes zero_buffer (Buffer_from ''mint'')"
  "\<not> buffer_includes zero_buffer (Buffer_from ''borsh'')"
  "detectSyscalls zero_buffer = []"
  by (auto simp: Buffer_from_def zero_buffer_def detectSyscalls_def syscallSignatures_def
           dest: buffer_includes_head)

text \<open>
  C3, as the code has it. For every byte buffer and every address,
  \<^verbatim>\<open>analyzeBinary\<close> returns \<open>instructions = floor(len/8)\<close>,
  \<open>branches = floor(instructions * 0.1)\<close> and \<open>loops = floor(instructions * 0.05)\<close>,
  which are the integer quotients below. A 4096-byte buffer that includes neither
  "swap" nor "mintNFT", analysed at an address other than the governance program
  address, gives 512 instructions, type "unknown", 51 branches and 25 loops.
\<close>

theorem analyzeBinary_estimates:
  "instructions (analyzeBinary (Some B) addr) = Some (of_nat (length B div 8)) \<and>
   branches (controlFlow (analyzeBinary (Some B) addr)) = of_nat (length B div 8 div 10) \<and>
   loops (controlFlow (analyzeBinary (Some B) addr)) = of_nat (length B div 8 div 20) \<and>
   (length B = 4096 \<and>
    \<not> buffer_includes B (Buffer_from ''swap'') \<and>
    \<not> buffer_includes B (Buffer_from ''mintNFT'') \<and>
    addr \<noteq> ''GovER5Lthms3bLBqWub97yVrMmEogzX7xNjdXpPPCVZw'' \<longrightarrow>
      instructions (analyzeBinary (Some B) addr) = Some 512 \<and>
      suspectedType (analyzeBinary (Some B) addr) = ''unknown'' \<and>
      branches (controlFlow (analyzeBinary (Some B) addr)) = 51 \<and>
      loops (controlFlow (analyzeBinary (Some B) addr)) = 25)"
proof -
  have count: "instructions (analyzeBinary (Some B) addr) = Some (of_nat (length B div 8))"
    by (simp add: analyzeBinary_def analyzeBinary_try_def Let_def floor_eighth)
  have tenth: "branches (controlFlow (analyzeBinary (Some B) addr)) = of_nat (length B div 8 div 10)"
    using floor_tenth [of "length B div 8"]
    by (simp add: analyzeBinary_def analyzeBinary_try_def Let_def floor_eighth)
  have twentieth: "loops (controlFlow (analyzeBinary (Some B) addr)) = of_nat (length B div 8 div 20)"
    using floor_twentieth [of "length B div 8"]
    by (simp add: analyzeBinary_def analyzeBinary_try_def Let_def floor_eighth)
  have kind: "suspectedType (analyzeBinary (Some B) addr) = ''unknown''"
    if "\<not> buffer_includes B (Buffer_from ''swap'')"
      and "\<not> buffer_includes B (Buffer_from ''mintNFT'')"
      and "addr \<noteq> ''GovER5Lthms3bLBqWub97yVrMmEogzX7xNjdXpPPCVZw''"
    using that by (simp add: analyzeBinary_def analyzeBinary_try_def Let_def inferProgramType_def)
  show ?thesis
    using count tenth twentieth kind by simp
qed

theorem analyzeBinary_estimates_witness:
  "length zero_buffer = 4096 \<and>
   instructions (analyzeBinary (Some zero_buffer) ''Prog1111'') = Some 512 \<and>
   suspectedType (analyzeBinary (Some zero_buffer) ''Prog1111'') = ''unknown'' \<and>
   branches (controlFlow (analyzeBinary (Some zero_buffer) ''Prog1111'')) = 51 \<and>
   loops (controlFlow (analyzeBinary (Some zero_buffer) ''Prog1111'')) = 25"
proof -
  have len: "length zero_buffer = 4096" by (simp add: zero_buffer_def)
  from analyzeBinary_estimates [of zero_buffer "''Prog1111''"] len zero_buffer_markers(1,2)
  show ?thesis by simp
qed

text \<open>The specification states the scenario for every address. At the governance
  program address the type is "governance" whatever the bytes are, also for the buffer
  of 4096 zero bytes, which holds no marker.\<close>

theorem analyzeBinary_governance_address_counterexample:
  "length zero_buffer = 4096 \<and>
   \<not> buffer_includes zero_buffer (Buffer_from ''swap'') \<and>
   \<not> buffer_includes zero_buffer (Buffer_from ''mintNFT'') \<and>
   \<not> buffer_includes zero_buffer (Buffer_from ''mint'') \<and>
   \<not> buffer_includes zero_buffer (Buffer_from ''borsh'') \<and>
   detectSyscalls zero_buffer = [] \<and>
   suspectedType (analyzeBinary (Some zero_buffer)
       ''GovER5Lthms3bLBqWub97yVrMmEogzX7xNjdXpPPCVZw'') = ''governance'' \<and>
   suspectedType (analyzeBinary (Some zero_buffer)
       ''GovER5Lthms3bLBqWub97yVrMmEogzX7xNjdXpPPCVZw'') \<noteq> ''unknown''"
  using zero_buffer_markers
  by (simp add: analyzeBinary_def analyzeBinary_try_def Let_def inferProgramType_def
        zero_buffer_def)

subsection \<open>The estimates under double rounding\<close>

lemma rounded_floor:
  assumes rnd: "rounds_like_double rnd"
    and q: "q < 2 ^ 48"
    and lo: "of_nat q \<le> x"
    and hi: "x \<le> of_nat q + 31 / 32"
  shows "\<lfloor>rnd x\<rfloor> = int q"
proof -
  from rnd have mono: "\<And>x y. x \<le> y \<Longrightarrow> rnd x \<le> rnd y"
    and exact: "\<And>m::nat. m < 2 ^ 53 \<Longrightarrow> rnd (of_nat m / 32) = of_nat m / 32"
    by (auto simp: rounds_like_double_def)
  from q have "32 * q < 2 ^ 53" and "32 * q + 31 < 2 ^ 53" by simp_all
  from exact [OF this(1)] exact [OF this(2)]
  have fix_lo: "rnd (of_nat q) = of_nat q" and fix_hi: "rnd (of_nat q + 31 / 32) = of_nat q + 31 / 32"
    by (simp_all add: add_divide_distrib)
  from mono [OF lo] fix_lo have "of_nat q \<le> rnd x" by simp
  moreover from mono [OF hi] fix_hi have "rnd x \<le> of_nat q + 31 / 32" by simp
  ultimately show ?thesis
    by (intro floor_unique) simp_all
qed

lemma of_nat_div_mod: "(of_nat n :: rat) = of_nat d * of_nat (n div d) + of_nat (n mod d)"
  by (metis of_nat_add of_nat_mult mult_div_mod_eq)

lemma floor_rounded_tenth:
  assumes rnd: "rounds_like_double rnd" and n: "n < 2 ^ 48"
  shows "\<lfloor>rnd (of_nat n * double_0_1)\<rfloor> = int (n div 10)"
proof (rule rounded_floor [OF rnd])
  from n show "n div 10 < 2 ^ 48" by (simp add: div_less_dividend less_imp_diff_less div_le_dividend le_less_trans)
  have split: "(of_nat n :: rat) = 10 * of_nat (n div 10) + of_nat (n mod 10)"
    using of_nat_div_mod [of n 10] by simp
  have r: "(of_nat (n mod 10) :: rat) \<le> 9" "(0::rat) \<le> of_nat (n mod 10)"
    by (simp_all add: of_nat_le_iff [where ?'a = rat, of _ 9, simplified] less_Suc_eq_le [symmetric])
  have qb: "(of_nat (n div 10) :: rat) \<le> 2 ^ 48" "(0::rat) \<le> of_nat (n div 10)"
    using \<open>n div 10 < 2 ^ 48\<close> by (simp_all add: of_nat_le_iff [where ?'a = rat, of _ "2 ^ 48", simplified] less_imp_le)
  show "of_nat (n div 10) \<le> of_nat n * double_0_1"
    unfolding split double_0_1_def using r qb by simp
  show "of_nat n * double_0_1 \<le> of_nat (n div 10) + 31 / 32"
    unfolding split double_0_1_def using r qb by simp
qed


lemma floor_rounded_twentieth:
  assumes rnd: "rounds_like_double rnd" and n: "n < 2 ^ 48"
  shows "\<lfloor>rnd (of_nat n * double_0_05)\<rfloor> = int (n div 20)"
proof (rule rounded_floor [OF rnd])
  from n show "n div 20 < 2 ^ 48" by (simp add: div_le_dividend le_less_trans)
  have split: "(of_nat n :: rat) = 20 * of_nat (n div 20) + of_nat (n mod 20)"
    using of_nat_div_mod [of n 20] by simp
  have r: "(of_nat (n mod 20) :: rat) \<le> 19" "(0::rat) \<le> of_nat (n mod 20)"
    by (simp_all add: of_nat_le_iff [where ?'a = rat, of _ 19, simplified] less_Suc_eq_le [symmetric])
  have qb: "(of_nat (n div 20) :: rat) \<le> 2 ^ 48" "(0::rat) \<le> of_nat (n div 20)"
    using \<open>n div 20 < 2 ^ 48\<close> by (simp_all add: of_nat_le_iff [where ?'a = rat, of _ "2 ^ 48", simplified] less_imp_le)
  show "of_nat (n div 20) \<le> of_nat n * double_0_05"
    unfolding split double_0_05_def using r qb by simp
  show "of_nat n * double_0_05 \<le> of_nat (n div 20) + 31 / 32"
    unfolding split double_0_05_def using r qb by simp
qed

lemma rounded_eighth:
  assumes rnd: "rounds_like_double rnd" and len: "len < 2 ^ 50"
  shows "rnd (of_nat len / 8) = of_nat len / 8"
proof -
  from rnd have exact: "\<And>m::nat. m < 2 ^ 53 \<Longrightarrow> rnd (of_nat m / 32) = of_nat m / 32"
    by (auto simp: rounds_like_double_def)
  from len have "4 * len < 2 ^ 53" by simp
  from exact [OF this] show ?thesis by simp
qed

text \<open>The three estimates of \<^verbatim>\<open>analyzeBinary\<close>, computed with rounding after the
  division and after each product, are the integers of the exact computation.\<close>

lemma estimates_under_rounding:
  assumes rnd: "rounds_like_double rnd" and len: "len < 2 ^ 50"
  shows "\<lfloor>rnd (of_nat len / 8)\<rfloor> = int (len div 8)"
    and "\<lfloor>rnd (of_int \<lfloor>rnd (of_nat len / 8)\<rfloor> * double_0_1)\<rfloor> = int (len div 8 div 10)"
    and "\<lfloor>rnd (of_int \<lfloor>rnd (of_nat len / 8)\<rfloor> * double_0_05)\<rfloor> = int (len div 8 div 20)"
proof -
  show count: "\<lfloor>rnd (of_nat len / 8)\<rfloor> = int (len div 8)"
    by (simp add: rounded_eighth [OF assms] floor_eighth)
  from len have small: "len div 8 < 2 ^ 48" by simp
  show "\<lfloor>rnd (of_int \<lfloor>rnd (of_nat len / 8)\<rfloor> * double_0_1)\<rfloor> = int (len div 8 div 10)"
    using floor_rounded_tenth [OF rnd small] by (simp add: count)
  show "\<lfloor>rnd (of_int \<lfloor>rnd (of_nat len / 8)\<rfloor> * double_0_05)\<rfloor> = int (len div 8 div 20)"
    using floor_rounded_twentieth [OF rnd small] by (simp add: count)
qed

text \<open>The exact arithmetic is one such rounding function.\<close>

lemma identity_rounds_like_double: "rounds_like_double (\<lambda>x. x)"
  by (simp add: rounds_like_double_def)

section \<open>Properties of the TransactionClassifier\<close>

lemma find_token_instruction:
  "find token_instruction ixs = Some tix \<Longrightarrow> list_ex token_instruction ixs"
  by (induction ixs) (auto split: if_splits)

lemma token_subtype_first:
  assumes "find token_instruction ixs = Some tix"
  shows "token_subtype ixs =
           (if parsed_type_of tix = Some ''transfer'' then Some ''transfer''
            else if parsed_type_of tix = Some ''mint'' then Some ''mint''
            else if parsed_type_of tix = Some ''burn'' then Some ''burn''
            else None)"
  using assms find_token_instruction [OF assms] by (simp add: token_subtype_def)

lemma token_subtype_range:
  "token_subtype ixs = Some t \<Longrightarrow> t = ''transfer'' \<or> t = ''mint'' \<or> t = ''burn''"
  unfolding token_subtype_def
  by (simp split: if_splits option.splits)

lemma self_invocation_is_swap:
  "list_ex (\<lambda>ix. programId ix = addr) ixs \<Longrightarrow> list_ex (swap_marker addr) ixs"
  by (induction ixs) (auto simp: swap_marker_def)

text \<open>The rule for "custom" never wins: an instruction of the analysed program
  already satisfies the swap rule.\<close>

lemma inferTransactionType_never_custom: "inferTransactionType ptx addr \<noteq> ''custom''"
proof (cases ptx)
  case None
  then show ?thesis by (simp add: inferTransactionType_def)
next
  case (Some ixs)
  show ?thesis
  proof (cases "token_subtype ixs")
    case None
    with Some self_invocation_is_swap [of addr ixs] show ?thesis
      by (simp add: inferTransactionType_def)
  next
    case (Some t)
    with token_subtype_range [OF Some] \<open>ptx = Some ixs\<close> show ?thesis
      by (auto simp: inferTransactionType_def)
  qed
qed

lemma first_token_instruction:
  assumes "ixs = pre @ tix # post" and "\<forall>ix\<in>set pre. \<not> token_instruction ix"
    and "token_instruction tix"
  shows "find token_instruction ixs = Some tix"
  using assms by (induction pre arbitrary: ixs) simp_all

lemma no_token_instruction:
  assumes "\<forall>ix\<in>set ixs. \<not> token_instruction ix"
  shows "token_subtype ixs = None"
  using assms by (simp add: token_subtype_def list_ex_iff)

text \<open>
  C4, as the code has it. The first four lines say what the markers are. The rules are
  tried in the order governance, token, swap, nft, custom, unknown and the first that
  applies decides. The token rule applies when the first instruction of the token
  program has parsed type "transfer", "mint" or "burn" and then gives that type; with no
  instruction of the token program, or with another parsed type on the first one, the
  later rules decide: "swap" for an instruction of a swap venue or of the analysed
  program, else "nft_mint" for an nft marker, else "unknown"; "custom" is never the
  result, since an instruction of the analysed program already satisfies the swap rule.
  So a transaction without governance marker that has an instruction of the token
  program and a swap marker is classified as the token sub-type when the first
  token-program instruction has one of the three parsed types, and as "swap" otherwise.
\<close>

theorem inferTransactionType_precedence:
  "(governance_marker ix \<longleftrightarrow>
      programId ix = ''GovER5Lthms3bLBqWub97yVrMmEogzX7xNjdXpPPCVZw'' \<or>
      programId ix = ''SMPLecHpvtyTWca6gwQLoCFN33w41rmatZTxM4W3fS7'' \<or>
      parsed_type_of ix = Some ''createProposal'' \<or> parsed_type_of ix = Some ''vote'') \<and>
   (token_instruction ix \<longleftrightarrow> programId ix = ''TokenkegQfeZyiNwAJbNbGKPFXCWuBvf9Ss623VQ5DA'') \<and>
   (swap_marker addr ix \<longleftrightarrow>
      programId ix = ''675kPX9MHTjS2zt1qfr1NYHuzeLXfQM9H24wFSUt1Mp8'' \<or>
      programId ix = ''pAMMBay6oceH9fJKBRHGP5D4bD4sWpmSwMn52FMfXEA'' \<or>
      programId ix = addr) \<and>
   (nft_marker ix \<longleftrightarrow>
      programId ix = ''metaqbxxUerdq28cj1RbAWkYQm3ybzjb6a8bt518x1s'' \<or>
      parsed_type_of ix = Some ''mintNFT'') \<and>
   inferTransactionType None addr = ''unknown'' \<and>
   ((\<exists>i\<in>set ixs. governance_marker i) \<longrightarrow>
      inferTransactionType (Some ixs) addr = ''governance'') \<and>
   (\<not> (\<exists>i\<in>set ixs. governance_marker i) \<and>
    ixs = pre @ tix # post \<and> (\<forall>i\<in>set pre. \<not> token_instruction i) \<and> token_instruction tix \<and>
    parsed_type_of tix = Some t \<and> (t = ''transfer'' \<or> t = ''mint'' \<or> t = ''burn'') \<longrightarrow>
      inferTransactionType (Some ixs) addr = t) \<and>
   (\<not> (\<exists>i\<in>set ixs. governance_marker i) \<and>
    ((\<forall>i\<in>set ixs. \<not> token_instruction i) \<or>
     ixs = pre @ tix # post \<and> (\<forall>i\<in>set pre. \<not> token_instruction i) \<and> token_instruction tix \<and>
     parsed_type_of tix \<noteq> Some ''transfer'' \<and> parsed_type_of tix \<noteq> Some ''mint'' \<and>
     parsed_type_of tix \<noteq> Some ''burn'') \<longrightarrow>
      inferTransactionType (Some ixs) addr =
        (if \<exists>i\<in>set ixs. swap_marker addr i then ''swap''
         else if \<exists>i\<in>set ixs. nft_marker i then ''nft_mint''
         else ''unknown'')) \<and>
   inferTransactionType (Some ixs) addr \<noteq> ''custom'' \<and>
   (\<not> (\<exists>i\<in>set ixs. governance_marker i) \<and>
    ixs = pre @ tix # post \<and> (\<forall>i\<in>set pre. \<not> token_instruction i) \<and> token_instruction tix \<and>
    (\<exists>i\<in>set ixs. swap_marker addr i) \<longrightarrow>
      inferTransactionType (Some ixs) addr =
        (if parsed_type_of tix = Some ''transfer'' then ''transfer''
         else if parsed_type_of tix = Some ''mint'' then ''mint''
         else if parsed_type_of tix = Some ''burn'' then ''burn''
         else ''swap''))"
proof -
  have markers:
    "governance_marker ix \<longleftrightarrow>
      programId ix = ''GovER5Lthms3bLBqWub97yVrMmEogzX7xNjdXpPPCVZw'' \<or>
      programId ix = ''SMPLecHpvtyTWca6gwQLoCFN33w41rmatZTxM4W3fS7'' \<or>
      parsed_type_of ix = Some ''createProposal'' \<or> parsed_type_of ix = Some ''vote''"
    "token_instruction ix \<longleftrightarrow> programId ix = ''TokenkegQfeZyiNwAJbNbGKPFXCWuBvf9Ss623VQ5DA''"
    "swap_marker addr ix \<longleftrightarrow>
      programId ix = ''675kPX9MHTjS2zt1qfr1NYHuzeLXfQM9H24wFSUt1Mp8'' \<or>
      programId ix = ''pAMMBay6oceH9fJKBRHGP5D4bD4sWpmSwMn52FMfXEA'' \<or>
      programId ix = addr"
    "nft_marker ix \<longleftrightarrow>
      programId ix = ''metaqbxxUerdq28cj1RbAWkYQm3ybzjb6a8bt518x1s'' \<or>
      parsed_type_of ix = Some ''mintNFT''"
    by (simp_all add: governance_marker_def token_instruction_def TOKEN_PROGRAM_def
          swap_marker_def nft_marker_def)
  have none: "inferTransactionType None addr = ''unknown''"
    by (simp add: inferTransactionType_def)
  have gov: "(\<exists>i\<in>set ixs. governance_marker i) \<longrightarrow>
      inferTransactionType (Some ixs) addr = ''governance''"
    by (simp add: inferTransactionType_def list_ex_iff)
  have later: "inferTransactionType (Some ixs) addr =
        (if \<exists>i\<in>set ixs. swap_marker addr i then ''swap''
         else if \<exists>i\<in>set ixs. nft_marker i then ''nft_mint''
         else ''unknown'')"
    if "\<not> (\<exists>i\<in>set ixs. governance_marker i)" and "token_subtype ixs = None"
    using that self_invocation_is_swap [of addr ixs]
    by (auto simp: inferTransactionType_def list_ex_iff)
  have first: "token_subtype ixs =
           (if parsed_type_of tix = Some ''transfer'' then Some ''transfer''
            else if parsed_type_of tix = Some ''mint'' then Some ''mint''
            else if parsed_type_of tix = Some ''burn'' then Some ''burn''
            else None)"
    if "ixs = pre @ tix # post" and "\<forall>i\<in>set pre. \<not> token_instruction i"
      and "token_instruction tix"
    using token_subtype_first [OF first_token_instruction [OF that]] .
  have tok: "\<not> (\<exists>i\<in>set ixs. governance_marker i) \<and>
    ixs = pre @ tix # post \<and> (\<forall>i\<in>set pre. \<not> token_instruction i) \<and> token_instruction tix \<and>
    parsed_type_of tix = Some t \<and> (t = ''transfer'' \<or> t = ''mint'' \<or> t = ''burn'') \<longrightarrow>
      inferTransactionType (Some ixs) addr = t"
  proof (intro impI, elim conjE)
    assume g: "\<not> (\<exists>i\<in>set ixs. governance_marker i)"
      and d: "ixs = pre @ tix # post" "\<forall>i\<in>set pre. \<not> token_instruction i" "token_instruction tix"
      and p: "parsed_type_of tix = Some t" and t: "t = ''transfer'' \<or> t = ''mint'' \<or> t = ''burn''"
    from t have "token_subtype ixs = Some t"
      by (elim disjE) (simp_all add: first [OF d] p)
    with g show "inferTransactionType (Some ixs) addr = t"
      by (simp add: inferTransactionType_def list_ex_iff)
  qed
  have fall: "\<not> (\<exists>i\<in>set ixs. governance_marker i) \<and>
    ((\<forall>i\<in>set ixs. \<not> token_instruction i) \<or>
     ixs = pre @ tix # post \<and> (\<forall>i\<in>set pre. \<not> token_instruction i) \<and> token_instruction tix \<and>
     parsed_type_of tix \<noteq> Some ''transfer'' \<and> parsed_type_of tix \<noteq> Some ''mint'' \<and>
     parsed_type_of tix \<noteq> Some ''burn'') \<longrightarrow>
      inferTransactionType (Some ixs) addr =
        (if \<exists>i\<in>set ixs. swap_marker addr i then ''swap''
         else if \<exists>i\<in>set ixs. nft_marker i then ''nft_mint''
         else ''unknown'')"
  proof (intro impI, elim conjE)
    assume g: "\<not> (\<exists>i\<in>set ixs. governance_marker i)"
      and c: "(\<forall>i\<in>set ixs. \<not> token_instruction i) \<or>
        ixs = pre @ tix # post \<and> (\<forall>i\<in>set pre. \<not> token_instruction i) \<and> token_instruction tix \<and>
        parsed_type_of tix \<noteq> Some ''transfer'' \<and> parsed_type_of tix \<noteq> Some ''mint'' \<and>
        parsed_type_of tix \<noteq> Some ''burn''"
    from c have "token_subtype ixs = None"
    proof
      assume "\<forall>i\<in>set ixs. \<not> token_instruction i"
      then show ?thesis by (rule no_token_instruction)
    next
      assume other: "ixs = pre @ tix # post \<and> (\<forall>i\<in>set pre. \<not> token_instruction i) \<and>
        token_instruction tix \<and> parsed_type_of tix \<noteq> Some ''transfer'' \<and>
        parsed_type_of tix \<noteq> Some ''mint'' \<and> parsed_type_of tix \<noteq> Some ''burn''"
      then have "ixs = pre @ tix # post" and "\<forall>i\<in>set pre. \<not> token_instruction i"
        and "token_instruction tix" by simp_all
      from first [OF this] other show ?thesis by simp
    qed
    from later [OF g this]
    show "inferTransactionType (Some ixs) addr =
        (if \<exists>i\<in>set ixs. swap_marker addr i then ''swap''
         else if \<exists>i\<in>set ixs. nft_marker i then ''nft_mint''
         else ''unknown'')" .
  qed
  have both: "\<not> (\<exists>i\<in>set ixs. governance_marker i) \<and>
    ixs = pre @ tix # post \<and> (\<forall>i\<in>set pre. \<not> token_instruction i) \<and> token_instruction tix \<and>
    (\<exists>i\<in>set ixs. swap_marker addr i) \<longrightarrow>
      inferTransactionType (Some ixs) addr =
        (if parsed_type_of tix = Some ''transfer'' then ''transfer''
         else if parsed_type_of tix = Some ''mint'' then ''mint''
         else if parsed_type_of tix = Some ''burn'' then ''burn''
         else ''swap'')"
  proof (intro impI, elim conjE)
    assume g: "\<not> (\<exists>i\<in>set ixs. governance_marker i)"
      and d: "ixs = pre @ tix # post" "\<forall>i\<in>set pre. \<not> token_instruction i" "token_instruction tix"
      and s: "\<exists>i\<in>set ixs. swap_marker addr i"
    from g s first [OF d]
    show "inferTransactionType (Some ixs) addr =
        (if parsed_type_of tix = Some ''transfer'' then ''transfer''
         else if parsed_type_of tix = Some ''mint'' then ''mint''
         else if parsed_type_of tix = Some ''burn'' then ''burn''
         else ''swap'')"
      by (simp add: inferTransactionType_def list_ex_iff)
  qed
  from markers none gov tok fall both inferTransactionType_never_custom [of "Some ixs" addr]
  show ?thesis by blast
qed

lemma example_instruction_facts:
  "\<not> governance_marker approve_instruction"
  "\<not> governance_marker transfer_instruction"
  "\<not> governance_marker venue_instruction"
  "token_instruction approve_instruction"
  "token_instruction transfer_instruction"
  "\<not> token_instruction venue_instruction"
  "swap_marker addr venue_instruction"
  "parsed_type_of approve_instruction = Some ''approve''"
  "parsed_type_of transfer_instruction = Some ''transfer''"
  "\<not> nft_marker venue_instruction"
  by (simp_all add: governance_marker_def token_instruction_def swap_marker_def TOKEN_PROGRAM_def
        parsed_type_of_def approve_instruction_def transfer_instruction_def venue_instruction_def
        nft_marker_def)

theorem inferTransactionType_precedence_witness:
  "token_instruction transfer_instruction \<and>
   parsed_type_of transfer_instruction = Some ''transfer'' \<and>
   swap_marker ''Prog1111'' venue_instruction \<and>
   inferTransactionType (Some [transfer_instruction, venue_instruction]) ''Prog1111'' = ''transfer'' \<and>
   parsed_type_of approve_instruction = Some ''approve'' \<and>
   inferTransactionType (Some [approve_instruction, venue_instruction]) ''Prog1111'' = ''swap'' \<and>
   inferTransactionType (Some [venue_instruction]) ''Prog1111'' = ''swap''"
proof -
  from inferTransactionType_precedence
         [of venue_instruction "''Prog1111''" "[transfer_instruction, venue_instruction]"
             "[]" transfer_instruction "[venue_instruction]" "''transfer''"]
  have one: "inferTransactionType (Some [transfer_instruction, venue_instruction]) ''Prog1111'' =
      ''transfer''"
    by (simp add: example_instruction_facts)
  from inferTransactionType_precedence
         [of venue_instruction "''Prog1111''" "[approve_instruction, venue_instruction]"
             "[]" approve_instruction "[venue_instruction]" "''transfer''"]
  have two: "inferTransactionType (Some [approve_instruction, venue_instruction]) ''Prog1111'' =
      ''swap''"
    by (simp add: example_instruction_facts)
  from inferTransactionType_precedence
         [of venue_instruction "''Prog1111''" "[venue_instruction]"
             "[]" venue_instruction "[]" "''transfer''"]
  have three: "inferTransactionType (Some [venue_instruction]) ''Prog1111'' = ''swap''"
    by (simp add: example_instruction_facts)
  from one two three example_instruction_facts show ?thesis by simp
qed

text \<open>The specification's sentence on a transaction with a token-program instruction
  and a swap-venue instruction fails when the token-program instruction has another
  parsed type: with an "approve" instruction of the token program and an instruction of
  a swap venue the result is "swap", not a token sub-type.\<close>

theorem inferTransactionType_token_and_swap_counterexample:
  "token_instruction approve_instruction \<and>
   swap_marker ''Prog1111'' venue_instruction \<and>
   inferTransactionType (Some [approve_instruction, venue_instruction]) ''Prog1111'' = ''swap'' \<and>
   inferTransactionType (Some [approve_instruction, venue_instruction]) ''Prog1111'' \<noteq> ''transfer'' \<and>
   inferTransactionType (Some [approve_instruction, venue_instruction]) ''Prog1111'' \<noteq> ''mint'' \<and>
   inferTransactionType (Some [approve_instruction, venue_instruction]) ''Prog1111'' \<noteq> ''burn''"
  by (simp add: inferTransactionType_def token_subtype_def example_instruction_facts)

section \<open>Properties of the CallGraphBuilder\<close>

lemma add_endpoints_Nil: "add_endpoints ns [] = ns"
  by (simp add: add_endpoints_def)

lemma add_endpoints_append:
  "add_endpoints ns (d1 @ d2) = add_endpoints (add_endpoints ns d1) d2"
  by (simp add: add_endpoints_def)

lemma graph_instruction_step:
  "graph_instruction act (ns, es) ix =
     (case instruction_edges act ix of
        Inl err \<Rightarrow> Inl err
      | Inr d \<Rightarrow> Inr (add_endpoints ns d, es @ d))"
  by (simp add: graph_instruction_def instruction_edges_def add_endpoints_def
           split: option.splits sum.splits)

lemma forEach_graph_instruction:
  "forEach (graph_instruction act) ixs (ns, es) =
     (case collect (instruction_edges act) ixs of
        Inl err \<Rightarrow> Inl err
      | Inr d \<Rightarrow> Inr (add_endpoints ns d, es @ d))"
proof (induction ixs arbitrary: ns es)
  case Nil
  then show ?case by (simp add: add_endpoints_Nil)
next
  case (Cons ix ixs)
  show ?case
    by (simp add: graph_instruction_step Cons.IH add_endpoints_append split: sum.splits)
qed

lemma graph_transaction_step:
  "graph_transaction (ns, es) tx =
     (case transaction_edges tx of
        Inl err \<Rightarrow> Inl err
      | Inr d \<Rightarrow> Inr (add_endpoints ns d, es @ d))"
  by (simp add: graph_transaction_def transaction_edges_def forEach_graph_instruction
           split: option.splits)

lemma forEach_graph_transaction:
  "forEach graph_transaction txs (ns, es) =
     (case collect transaction_edges txs of
        Inl err \<Rightarrow> Inl err
      | Inr d \<Rightarrow> Inr (add_endpoints ns d, es @ d))"
proof (induction txs arbitrary: ns es)
  case Nil
  then show ?case by (simp add: add_endpoints_Nil)
next
  case (Cons tx txs)
  show ?case
    by (simp add: graph_transaction_step Cons.IH add_endpoints_append split: sum.splits)
qed

lemma collect_append:
  "collect f (xs @ ys) =
     (case collect f xs of
        Inl err \<Rightarrow> Inl err
      | Inr d1 \<Rightarrow> (case collect f ys of Inl err \<Rightarrow> Inl err | Inr d2 \<Rightarrow> Inr (d1 @ d2)))"
  by (induction xs) (simp_all split: sum.splits)

lemma set_add_node: "set (add_node ns n) = insert n (set ns)"
  by (auto simp: add_node_def)

lemma set_add_endpoints:
  "set (add_endpoints ns d) =
     set ns \<union> (\<lambda>e. Some (from_node e)) ` set d \<union> (\<lambda>e. Some (to_node e)) ` set d"
  unfolding add_endpoints_def
  by (induction d arbitrary: ns) (auto simp: set_add_node)

lemma hd_add_node: "ns \<noteq> [] \<Longrightarrow> add_node ns n \<noteq> [] \<and> hd (add_node ns n) = hd ns"
  by (simp add: add_node_def)

text \<open>The first node stays the first node.\<close>

lemma hd_add_endpoints:
  "ns \<noteq> [] \<Longrightarrow> add_endpoints ns d \<noteq> [] \<and> hd (add_endpoints ns d) = hd ns"
  unfolding add_endpoints_def
  by (induction d arbitrary: ns) (simp_all add: hd_add_node)

lemma toBase58_key: "is_key k \<Longrightarrow> \<exists>a. toBase58 k = Inr a"
  by (cases k) simp_all

lemma toBase58_no_key: "\<not> is_key k \<Longrightarrow> toBase58 k = Inl TypeError"
  by (cases k) simp_all

lemma well_formed_instruction_edges:
  "well_formed_instruction ix \<Longrightarrow> \<exists>d. instruction_edges act ix = Inr d"
proof (cases "accounts ix")
  case None
  then show ?thesis by (simp add: instruction_edges_def)
next
  case (Some accs)
  assume wf: "well_formed_instruction ix"
  show ?thesis
  proof (cases "2 \<le> length accs")
    case True
    with wf Some have "is_key (accs ! 0)" and "is_key (accs ! 1)"
      by (simp_all add: well_formed_instruction_def)
    from toBase58_key [OF this(1)] toBase58_key [OF this(2)] Some True show ?thesis
      by (auto simp: instruction_edges_def)
  next
    case False
    with Some show ?thesis by (simp add: instruction_edges_def)
  qed
qed

lemma ill_formed_instruction_edges:
  "\<not> well_formed_instruction ix \<Longrightarrow> instruction_edges act ix = Inl TypeError"
proof -
  assume bad: "\<not> well_formed_instruction ix"
  then obtain accs where accs: "accounts ix = Some accs" and len: "2 \<le> length accs"
      and keys: "\<not> is_key (accs ! 0) \<or> \<not> is_key (accs ! 1)"
    by (auto simp: well_formed_instruction_def split: option.splits)
  show ?thesis
  proof (cases "is_key (accs ! 0)")
    case True
    with keys have "\<not> is_key (accs ! 1)" by simp
    from toBase58_key [OF True] toBase58_no_key [OF this] accs len show ?thesis
      by (auto simp: instruction_edges_def)
  next
    case False
    from toBase58_no_key [OF this] accs len show ?thesis
      by (simp add: instruction_edges_def)
  qed
qed

lemma collect_raises:
  assumes "\<exists>x\<in>set xs. f x = Inl TypeError"
    and "\<forall>x\<in>set xs. \<forall>err. f x = Inl err \<longrightarrow> err = TypeError"
  shows "collect f xs = Inl TypeError"
  using assms
proof (induction xs)
  case Nil
  then show ?case by simp
next
  case (Cons a xs)
  show ?case
  proof (cases "f a")
    case (Inl err)
    with Cons.prems(2) have "err = TypeError" by simp
    with Inl show ?thesis by simp
  next
    case (Inr d)
    with Cons.prems(1) have "\<exists>x\<in>set xs. f x = Inl TypeError" by auto
    moreover from Cons.prems(2) have "\<forall>x\<in>set xs. \<forall>err. f x = Inl err \<longrightarrow> err = TypeError"
      by simp
    ultimately have "collect f xs = Inl TypeError" by (rule Cons.IH)
    with Inr show ?thesis by simp
  qed
qed

lemma instruction_edges_error: "instruction_edges act ix = Inl err \<Longrightarrow> err = TypeError"
  by (cases "well_formed_instruction ix")
     (auto dest: well_formed_instruction_edges [of ix act] ill_formed_instruction_edges [of ix act])

lemma collect_error:
  "(\<forall>x\<in>set xs. \<forall>err. f x = Inl err \<longrightarrow> err = TypeError) \<Longrightarrow> collect f xs = Inl err \<Longrightarrow> err = TypeError"
  by (induction xs arbitrary: err) (auto split: sum.splits)

lemma transaction_edges_error: "transaction_edges tx = Inl err \<Longrightarrow> err = TypeError"
  unfolding transaction_edges_def
  by (cases "tx_instructions tx") (auto dest: collect_error [rotated] instruction_edges_error)

lemma ill_formed_transaction_edges:
  assumes "\<not> well_formed_transaction tx"
  shows "transaction_edges tx = Inl TypeError"
proof (cases "tx_instructions tx")
  case None
  then show ?thesis by (simp add: transaction_edges_def)
next
  case (Some ixs)
  with assms obtain ix where "ix \<in> set ixs" and "\<not> well_formed_instruction ix"
    by (auto simp: well_formed_transaction_def list_all_iff)
  then have "\<exists>x\<in>set ixs. instruction_edges (tx_type tx) x = Inl TypeError"
    using ill_formed_instruction_edges by blast
  from collect_raises [OF this] instruction_edges_error Some show ?thesis
    by (auto simp: transaction_edges_def)
qed

text \<open>A list with a transaction that is not well formed makes the loops raise.\<close>

lemma ill_formed_collect:
  assumes "\<not> well_formed txs"
  shows "collect transaction_edges txs = Inl TypeError"
proof -
  from assms obtain tx where "tx \<in> set txs" and "\<not> well_formed_transaction tx"
    by (auto simp: well_formed_def list_all_iff)
  then have "\<exists>x\<in>set txs. transaction_edges x = Inl TypeError"
    using ill_formed_transaction_edges by blast
  from collect_raises [OF this] transaction_edges_error show ?thesis by blast
qed

lemma well_formed_collect_instructions:
  "list_all well_formed_instruction ixs \<Longrightarrow> \<exists>d. collect (instruction_edges act) ixs = Inr d"
proof (induction ixs)
  case Nil
  then show ?case by simp
next
  case (Cons ix ixs)
  then obtain d ds where "instruction_edges act ix = Inr d"
      and "collect (instruction_edges act) ixs = Inr ds"
    using well_formed_instruction_edges [of ix act] by auto
  then show ?case by simp
qed

lemma well_formed_collect:
  "well_formed txs \<Longrightarrow> \<exists>d. collect transaction_edges txs = Inr d"
proof (induction txs)
  case Nil
  then show ?case by simp
next
  case (Cons tx txs)
  from Cons.prems obtain ixs where ixs: "tx_instructions tx = Some ixs"
      and wf: "list_all well_formed_instruction ixs" and rest: "well_formed txs"
    by (auto simp: well_formed_def well_formed_transaction_def split: option.splits)
  from well_formed_collect_instructions [OF wf, of "tx_type tx"] ixs
  obtain d where "transaction_edges tx = Inr d"
    by (auto simp: transaction_edges_def)
  moreover from Cons.IH [OF rest] obtain ds where "collect transaction_edges txs = Inr ds" ..
  ultimately show ?case by simp
qed

text \<open>What \<^verbatim>\<open>reconstructCallGraph\<close> returns on a well-formed transaction list.\<close>

lemma reconstructCallGraph_well_formed:
  assumes "collect transaction_edges txs = Inr d"
  shows "reconstructCallGraph (Some ins) (Some txs) =
           \<lparr>nodes = add_endpoints [address ins] d, edges = d\<rparr>"
  using assms
  by (simp add: reconstructCallGraph_def reconstructCallGraph_try_def forEach_graph_transaction)

lemma example_transactions_well_formed:
  "well_formed [swap_transaction]"
  "\<not> well_formed [swap_transaction, broken_transaction]"
  by (simp_all add: well_formed_def well_formed_transaction_def well_formed_instruction_def
        swap_transaction_def broken_transaction_def venue_instruction_def)

text \<open>
  C6. For well-formed transaction lists \<open>T1\<close> and \<open>T2\<close>, the graph built from
  \<open>T1 @ T2\<close> has as edges the edges of the graph of \<open>T1\<close> followed by those of the graph
  of \<open>T2\<close>, so its edge multiset is the sum of the two edge multisets, and its node set
  is the union of the two node sets.
\<close>

theorem reconstructCallGraph_additive:
  assumes "well_formed T1" and "well_formed T2"
  shows "edges (reconstructCallGraph a (Some (T1 @ T2))) =
           edges (reconstructCallGraph a (Some T1)) @ edges (reconstructCallGraph a (Some T2))
       \<and> mset (edges (reconstructCallGraph a (Some (T1 @ T2)))) =
           mset (edges (reconstructCallGraph a (Some T1))) +
           mset (edges (reconstructCallGraph a (Some T2)))
       \<and> set (nodes (reconstructCallGraph a (Some (T1 @ T2)))) =
           set (nodes (reconstructCallGraph a (Some T1))) \<union>
           set (nodes (reconstructCallGraph a (Some T2)))"
proof (cases a)
  case None
  then show ?thesis
    by (simp add: reconstructCallGraph_def reconstructCallGraph_try_def)
next
  case (Some ins)
  from well_formed_collect [OF assms(1)] obtain d1 where d1: "collect transaction_edges T1 = Inr d1" ..
  from well_formed_collect [OF assms(2)] obtain d2 where d2: "collect transaction_edges T2 = Inr d2" ..
  from d1 d2 have d12: "collect transaction_edges (T1 @ T2) = Inr (d1 @ d2)"
    by (simp add: collect_append)
  show ?thesis
    unfolding Some
      reconstructCallGraph_well_formed [OF d1]
      reconstructCallGraph_well_formed [OF d2]
      reconstructCallGraph_well_formed [OF d12]
    by (auto simp: set_add_endpoints)
qed

theorem reconstructCallGraph_additive_witness:
  "well_formed [swap_transaction] \<and>
   edges (reconstructCallGraph (Some example_insights) (Some ([swap_transaction] @ [swap_transaction]))) =
     edges (reconstructCallGraph (Some example_insights) (Some [swap_transaction])) @
     edges (reconstructCallGraph (Some example_insights) (Some [swap_transaction])) \<and>
   nodes (reconstructCallGraph (Some example_insights) (Some [swap_transaction])) =
     [Some ''Prog1111'', Some ''Alice111'', Some ''Bob22222'']"
proof -
  have nodes: "nodes (reconstructCallGraph (Some example_insights) (Some [swap_transaction])) =
      [Some ''Prog1111'', Some ''Alice111'', Some ''Bob22222'']"
    by (simp add: reconstructCallGraph_def reconstructCallGraph_try_def graph_transaction_def
          graph_instruction_def swap_transaction_def venue_instruction_def add_node_def
          example_insights_def)
  from reconstructCallGraph_additive
         [OF example_transactions_well_formed(1) example_transactions_well_formed(1),
          of "Some example_insights"]
       example_transactions_well_formed(1) nodes
  show ?thesis by simp
qed

lemma reconstructCallGraph_ill_formed:
  assumes "\<not> well_formed txs"
  shows "reconstructCallGraph a (Some txs) = \<lparr>nodes = [], edges = []\<rparr>"
  using ill_formed_collect [OF assms]
  by (cases a)
     (simp_all add: reconstructCallGraph_def reconstructCallGraph_try_def forEach_graph_transaction)

lemma well_formed_iff:
  "well_formed txs \<longleftrightarrow>
     (\<forall>tx\<in>set txs. \<exists>ixs. tx_instructions tx = Some ixs \<and>
        (\<forall>ix\<in>set ixs. \<forall>accs. accounts ix = Some accs \<and> 2 \<le> length accs \<longrightarrow>
           (\<exists>k. accs ! 0 = PublicKey k) \<and> (\<exists>k. accs ! 1 = PublicKey k)))"
proof -
  have key: "is_key k \<longleftrightarrow> (\<exists>a. k = PublicKey a)" for k
    by (cases k) simp_all
  show ?thesis
    unfolding well_formed_def well_formed_transaction_def well_formed_instruction_def
      list_all_iff key
    by (auto split: option.splits)
qed

text \<open>
  C9, as the code has it. The \<^verbatim>\<open>try\<close> block of \<^verbatim>\<open>reconstructCallGraph\<close> completes
  exactly when the insights and the transaction list are present, every transaction has
  its instruction list and the first two accounts of every instruction with at least
  two accounts are public keys (the list is well formed). Then the first node of the
  returned graph is \<^verbatim>\<open>analysis.insights.address\<close>: the analysed program address when the
  insights carry it, \<^verbatim>\<open>undefined\<close> when they do not. On every other input (missing
  insights, missing transaction list, a transaction without instruction list, a first
  or second account that is null or no public key) the \<^verbatim>\<open>catch\<close> block returns the
  graph without nodes and edges, which has no root.
\<close>

theorem reconstructCallGraph_root_node:
  "(well_formed txs \<longleftrightarrow>
     (\<forall>tx\<in>set txs. \<exists>ixs. tx_instructions tx = Some ixs \<and>
        (\<forall>ix\<in>set ixs. \<forall>accs. accounts ix = Some accs \<and> 2 \<le> length accs \<longrightarrow>
           (\<exists>k. accs ! 0 = PublicKey k) \<and> (\<exists>k. accs ! 1 = PublicKey k)))) \<and>
   ((\<exists>g. reconstructCallGraph_try (Some ins) (Some txs) = Inr g) \<longleftrightarrow> well_formed txs) \<and>
   (\<forall>g. reconstructCallGraph_try None t \<noteq> Inr g) \<and>
   (\<forall>g. reconstructCallGraph_try a None \<noteq> Inr g) \<and>
   (well_formed txs \<longrightarrow>
      nodes (reconstructCallGraph (Some ins) (Some txs)) \<noteq> [] \<and>
      hd (nodes (reconstructCallGraph (Some ins) (Some txs))) = address ins \<and>
      address ins \<in> set (nodes (reconstructCallGraph (Some ins) (Some txs)))) \<and>
   reconstructCallGraph None t = \<lparr>nodes = [], edges = []\<rparr> \<and>
   reconstructCallGraph a None = \<lparr>nodes = [], edges = []\<rparr> \<and>
   (\<not> well_formed txs' \<longrightarrow> reconstructCallGraph a (Some txs') = \<lparr>nodes = [], edges = []\<rparr>) \<and>
   (tx \<in> set txs' \<and> tx_instructions tx = None \<longrightarrow>
      reconstructCallGraph a (Some txs') = \<lparr>nodes = [], edges = []\<rparr>) \<and>
   (tx \<in> set txs' \<and> tx_instructions tx = Some ixs \<and> ix \<in> set ixs \<and>
    accounts ix = Some accs \<and> 2 \<le> length accs \<and>
    (accs ! 0 \<in> {Nullish, NotAKey} \<or> accs ! 1 \<in> {Nullish, NotAKey}) \<longrightarrow>
      reconstructCallGraph a (Some txs') = \<lparr>nodes = [], edges = []\<rparr>)"
proof -
  have exactly: "(\<exists>g. reconstructCallGraph_try (Some ins) (Some txs) = Inr g) \<longleftrightarrow> well_formed txs"
  proof (cases "well_formed txs")
    case True
    from well_formed_collect [OF this] obtain d where "collect transaction_edges txs = Inr d" ..
    with True show ?thesis
      by (simp add: reconstructCallGraph_try_def forEach_graph_transaction)
  next
    case False
    from ill_formed_collect [OF this] False show ?thesis
      by (simp add: reconstructCallGraph_try_def forEach_graph_transaction)
  qed
  have raises: "\<forall>g. reconstructCallGraph_try None t \<noteq> Inr g"
    "\<forall>g. reconstructCallGraph_try a None \<noteq> Inr g"
    by (cases a; simp add: reconstructCallGraph_try_def)+
  have completes: "well_formed txs \<longrightarrow>
      nodes (reconstructCallGraph (Some ins) (Some txs)) \<noteq> [] \<and>
      hd (nodes (reconstructCallGraph (Some ins) (Some txs))) = address ins \<and>
      address ins \<in> set (nodes (reconstructCallGraph (Some ins) (Some txs)))"
  proof
    assume "well_formed txs"
    from well_formed_collect [OF this] obtain d where d: "collect transaction_edges txs = Inr d" ..
    then have "reconstructCallGraph_try (Some ins) (Some txs) =
        Inr \<lparr>nodes = add_endpoints [address ins] d, edges = d\<rparr>"
      by (simp add: reconstructCallGraph_try_def forEach_graph_transaction)
    with reconstructCallGraph_well_formed [OF d, of ins] hd_add_endpoints [of "[address ins]" d]
    show "nodes (reconstructCallGraph (Some ins) (Some txs)) \<noteq> [] \<and>
      hd (nodes (reconstructCallGraph (Some ins) (Some txs))) = address ins \<and>
      address ins \<in> set (nodes (reconstructCallGraph (Some ins) (Some txs)))"
      by (simp add: set_add_endpoints)
  qed
  have no_insights: "reconstructCallGraph None t = \<lparr>nodes = [], edges = []\<rparr>"
    by (simp add: reconstructCallGraph_def reconstructCallGraph_try_def)
  have no_list: "reconstructCallGraph a None = \<lparr>nodes = [], edges = []\<rparr>"
    by (cases a) (simp_all add: reconstructCallGraph_def reconstructCallGraph_try_def)
  have no_instructions: "tx \<in> set txs' \<and> tx_instructions tx = None \<longrightarrow>
      reconstructCallGraph a (Some txs') = \<lparr>nodes = [], edges = []\<rparr>"
  proof
    assume bad: "tx \<in> set txs' \<and> tx_instructions tx = None"
    then have "\<not> well_formed_transaction tx"
      by (simp add: well_formed_transaction_def)
    with bad have "\<not> well_formed txs'"
      by (auto simp: well_formed_def list_all_iff)
    then show "reconstructCallGraph a (Some txs') = \<lparr>nodes = [], edges = []\<rparr>"
      by (rule reconstructCallGraph_ill_formed)
  qed
  have no_key: "tx \<in> set txs' \<and> tx_instructions tx = Some ixs \<and> ix \<in> set ixs \<and>
    accounts ix = Some accs \<and> 2 \<le> length accs \<and>
    (accs ! 0 \<in> {Nullish, NotAKey} \<or> accs ! 1 \<in> {Nullish, NotAKey}) \<longrightarrow>
      reconstructCallGraph a (Some txs') = \<lparr>nodes = [], edges = []\<rparr>"
  proof
    assume bad: "tx \<in> set txs' \<and> tx_instructions tx = Some ixs \<and> ix \<in> set ixs \<and>
      accounts ix = Some accs \<and> 2 \<le> length accs \<and>
      (accs ! 0 \<in> {Nullish, NotAKey} \<or> accs ! 1 \<in> {Nullish, NotAKey})"
    then have "\<not> well_formed_instruction ix"
      by (auto simp: well_formed_instruction_def)
    with bad have "\<not> well_formed_transaction tx"
      by (auto simp: well_formed_transaction_def list_all_iff)
    with bad have "\<not> well_formed txs'"
      by (auto simp: well_formed_def list_all_iff)
    then show "reconstructCallGraph a (Some txs') = \<lparr>nodes = [], edges = []\<rparr>"
      by (rule reconstructCallGraph_ill_formed)
  qed
  from well_formed_iff [of txs] exactly raises completes no_insights no_list
    reconstructCallGraph_ill_formed [of txs' a] no_instructions no_key
  show ?thesis by blast
qed

lemma example_graphs:
  "nodes (reconstructCallGraph (Some example_insights) (Some [swap_transaction])) =
     [Some ''Prog1111'', Some ''Alice111'', Some ''Bob22222'']"
  "nodes (reconstructCallGraph (Some addressless_insights) (Some [swap_transaction])) =
     [None, Some ''Alice111'', Some ''Bob22222'']"
  "reconstructCallGraph (Some example_insights) (Some [swap_transaction, null_account_transaction]) =
     \<lparr>nodes = [], edges = []\<rparr>"
  by (simp_all add: reconstructCallGraph_def reconstructCallGraph_try_def graph_transaction_def
        graph_instruction_def swap_transaction_def null_account_transaction_def
        venue_instruction_def add_node_def example_insights_def addressless_insights_def)

theorem reconstructCallGraph_root_node_witness:
  "well_formed [swap_transaction] \<and>
   hd (nodes (reconstructCallGraph (Some example_insights) (Some [swap_transaction]))) =
     Some ''Prog1111'' \<and>
   nodes (reconstructCallGraph (Some addressless_insights) (Some [swap_transaction])) =
     [None, Some ''Alice111'', Some ''Bob22222''] \<and>
   hd (nodes (reconstructCallGraph (Some addressless_insights) (Some [swap_transaction]))) =
     address addressless_insights \<and>
   reconstructCallGraph None (Some [swap_transaction]) = \<lparr>nodes = [], edges = []\<rparr> \<and>
   reconstructCallGraph (Some example_insights) None = \<lparr>nodes = [], edges = []\<rparr> \<and>
   reconstructCallGraph (Some example_insights) (Some [swap_transaction, broken_transaction]) =
     \<lparr>nodes = [], edges = []\<rparr> \<and>
   reconstructCallGraph (Some example_insights) (Some [swap_transaction, null_account_transaction]) =
     \<lparr>nodes = [], edges = []\<rparr>"
proof -
  have broken: "broken_transaction \<in> set [swap_transaction, broken_transaction]"
    "tx_instructions broken_transaction = None"
    by (simp_all add: broken_transaction_def)
  from reconstructCallGraph_root_node
         [of "[swap_transaction]" example_insights "Some [swap_transaction]"
             "Some example_insights" "[swap_transaction, broken_transaction]"
             broken_transaction]
       reconstructCallGraph_root_node
         [of "[swap_transaction]" addressless_insights]
       example_transactions_well_formed broken example_graphs
  show ?thesis by (simp add: example_insights_def addressless_insights_def)
qed

text \<open>The specification states the property for degraded inputs too. With the insights
  present and one transaction that lacks its instruction list, the returned graph has
  no node at all, so the program address is not among its nodes.\<close>

theorem reconstructCallGraph_root_missing_counterexample:
  "address example_insights = Some ''Prog1111'' \<and>
   nodes (reconstructCallGraph (Some example_insights)
            (Some [swap_transaction, broken_transaction])) = [] \<and>
   address example_insights \<notin>
     set (nodes (reconstructCallGraph (Some example_insights)
            (Some [swap_transaction, broken_transaction])))"
  by (simp add: reconstructCallGraph_def reconstructCallGraph_try_def graph_transaction_def
        graph_instruction_def swap_transaction_def broken_transaction_def venue_instruction_def
        example_insights_def)

section \<open>Properties of the retry loop\<close>

lemma attempt_loop_failed:
  assumes "failed (source attempt)" and "attempt < 5"
  shows "attempt_loop source attempt waited =
           attempt_loop source (attempt + 1) (waited @ [retryDelays ! attempt])"
proof (cases "source attempt")
  case Thrown
  with assms(2) show ?thesis
    by (subst attempt_loop.simps) (simp add: maxRetries_def)
next
  case RateLimited
  with assms(2) show ?thesis
    by (subst attempt_loop.simps) (simp add: maxRetries_def)
next
  case (Computed r)
  with assms(1) show ?thesis by simp
qed

lemma attempt_loop_exhausted:
  assumes "failed (source 5)"
  shows "attempt_loop source 5 waited = (createFallback, waited, None)"
proof (cases "source 5")
  case Thrown
  then show ?thesis
    by (subst attempt_loop.simps) (simp add: maxRetries_def)
next
  case RateLimited
  then show ?thesis
    by (subst attempt_loop.simps) (simp add: maxRetries_def)
next
  case (Computed r)
  with assms(1) show ?thesis by simp
qed

lemma attempt_loop_computed:
  assumes "source attempt = Computed r" and "attempt \<le> 5"
  shows "attempt_loop source attempt waited = (r, waited, Some r)"
  using assms
  by (subst attempt_loop.simps) (simp add: maxRetries_def)

lemma retryDelays_nth:
  "retryDelays ! 0 = 1000" "retryDelays ! 1 = 2000" "retryDelays ! 2 = 4000"
  "retryDelays ! 3 = 8000" "retryDelays ! 4 = 16000" "retryDelays ! Suc 0 = 2000"
  by (simp_all add: retryDelays_def)

lemma attempt_loop_step:
  assumes "failed (source attempt)" and "attempt < 5"
    and "next = attempt + 1" and "waited' = waited @ [retryDelays ! attempt]"
  shows "attempt_loop source attempt waited = attempt_loop source next waited'"
  using assms attempt_loop_failed [of source attempt waited] by simp

lemma attempt_loop_four_failures:
  assumes "\<forall>i<4. failed (source i)"
  shows "attempt_loop source 0 [] = attempt_loop source 4 [1000, 2000, 4000, 8000]"
proof -
  from assms have f0: "failed (source 0)" and f1: "failed (source 1)"
    and f2: "failed (source 2)" and f3: "failed (source 3)" by simp_all
  have "attempt_loop source 0 [] = attempt_loop source 1 [1000]"
    by (rule attempt_loop_step) (use f0 in \<open>simp_all add: retryDelays_nth\<close>)
  also have "\<dots> = attempt_loop source 2 [1000, 2000]"
    by (rule attempt_loop_step) (use f1 in \<open>simp_all add: retryDelays_nth\<close>)
  also have "\<dots> = attempt_loop source 3 [1000, 2000, 4000]"
    by (rule attempt_loop_step) (use f2 in \<open>simp_all add: retryDelays_nth\<close>)
  also have "\<dots> = attempt_loop source 4 [1000, 2000, 4000, 8000]"
    by (rule attempt_loop_step) (use f3 in \<open>simp_all add: retryDelays_nth\<close>)
  finally show ?thesis .
qed

text \<open>With the key present the function returns on every path.\<close>

lemma getRecentTransactions_returns:
  assumes "k \<noteq> []"
  shows "\<exists>res. getRecentTransactions (Some k) cached source = Inr res"
proof (cases cached)
  case None
  with assms have "getRecentTransactions (Some k) cached source = Inr (attempt_loop source 0 [])"
    by (simp add: getRecentTransactions_def)
  then show ?thesis by blast
next
  case (Some hit)
  with assms have "getRecentTransactions (Some k) cached source = Inr (hit, [], Some hit)"
    by (simp add: getRecentTransactions_def)
  then show ?thesis by blast
qed

text \<open>
  C5. With the API key present and nothing in the cache: when the data source fails on
  the first four attempts and answers on the fifth, the function returns the computed
  result after waiting 1s, 2s, 4s and 8s; when it fails on all six attempts, the function
  returns the fallback of \<^verbatim>\<open>createFallback\<close> (no transactions, every figure zero) after
  waiting 1s, 2s, 4s, 8s and 16s. With the key present it returns a value, never an
  error, whatever the data source and the cache do.
\<close>

theorem getRecentTransactions_retry:
  assumes "k \<noteq> []"
  shows "((\<forall>i<4. failed (source i)) \<and> source 4 = Computed r \<longrightarrow>
            getRecentTransactions (Some k) None source =
              Inr (r, [1000, 2000, 4000, 8000], Some r)) \<and>
         ((\<forall>i<6. failed (source' i)) \<longrightarrow>
            getRecentTransactions (Some k) None source' =
              Inr (createFallback, [1000, 2000, 4000, 8000, 16000], None)) \<and>
         (\<exists>res. getRecentTransactions (Some k) cached source'' = Inr res) \<and>
         transactions createFallback = [] \<and>
         totalVolumeSOL (economicInsights createFallback) = Some 0 \<and>
         averageFeeSOL (economicInsights createFallback) = Some 0 \<and>
         transactionCount (economicInsights createFallback) = Some 0 \<and>
         suspiciousVolume (economicInsights createFallback) = Some 0"
proof -
  have recover: "getRecentTransactions (Some k) None source =
      Inr (r, [1000, 2000, 4000, 8000], Some r)"
    if fails: "\<forall>i<4. failed (source i)" and answer: "source 4 = Computed r"
    using assms fails attempt_loop_four_failures [of source]
      answer attempt_loop_computed [of source 4 r "[1000, 2000, 4000, 8000]"]
    by (simp add: getRecentTransactions_def)
  have exhaust: "getRecentTransactions (Some k) None source' =
      Inr (createFallback, [1000, 2000, 4000, 8000, 16000], None)"
    if fails: "\<forall>i<6. failed (source' i)"
  proof -
    from fails have four: "\<forall>i<4. failed (source' i)" by simp
    from fails have fifth: "failed (source' 4)" and sixth: "failed (source' 5)" by simp_all
    have "attempt_loop source' 0 [] = attempt_loop source' 4 [1000, 2000, 4000, 8000]"
      using four by (rule attempt_loop_four_failures)
    also have "\<dots> = attempt_loop source' 5 [1000, 2000, 4000, 8000, 16000]"
      by (rule attempt_loop_step) (use fifth in \<open>simp_all add: retryDelays_nth\<close>)
    also have "\<dots> = (createFallback, [1000, 2000, 4000, 8000, 16000], None)"
      using sixth by (rule attempt_loop_exhausted)
    finally show ?thesis using assms by (simp add: getRecentTransactions_def)
  qed
  have fallback: "transactions createFallback = [] \<and>
         totalVolumeSOL (economicInsights createFallback) = Some 0 \<and>
         averageFeeSOL (economicInsights createFallback) = Some 0 \<and>
         transactionCount (economicInsights createFallback) = Some 0 \<and>
         suspiciousVolume (economicInsights createFallback) = Some 0"
    by (simp add: createFallback_def)
  from recover exhaust fallback getRecentTransactions_returns [OF assms, of cached source'']
  show ?thesis by blast
qed

theorem getRecentTransactions_retry_witness:
  "''key'' \<noteq> [] \<and>
   failed (recovering_source 0) \<and> failed (recovering_source 1) \<and>
   failed (recovering_source 2) \<and> failed (recovering_source 3) \<and>
   recovering_source 4 = Computed example_data \<and>
   getRecentTransactions (Some ''key'') None recovering_source =
     Inr (example_data, [1000, 2000, 4000, 8000], Some example_data) \<and>
   getRecentTransactions (Some ''key'') None limited_source =
     Inr (createFallback, [1000, 2000, 4000, 8000, 16000], None)"
proof -
  have key: "''key'' \<noteq> []" by simp
  have fails: "\<forall>i<4. failed (recovering_source i)"
    by (simp add: recovering_source_def)
  have answer: "recovering_source 4 = Computed example_data"
    by (simp add: recovering_source_def)
  have limited: "\<forall>i<6. failed (limited_source i)"
    by (simp add: limited_source_def)
  from getRecentTransactions_retry
         [OF key, of recovering_source example_data limited_source None limited_source]
       key fails answer limited
  show ?thesis by simp
qed

section \<open>Properties of the token flow aggregation\<close>

lemma flow_key_update [simp]:
  "flow_key (g\<lparr>amount := x\<rparr>) = flow_key g"
  "flow_key (g\<lparr>txCount := n\<rparr>) = flow_key g"
  by (simp_all add: flow_key_def)

lemma aggregate_step_alt:
  "aggregate_step acc fl =
     map (\<lambda>(k, g). (k, if k = flow_key fl
                        then g\<lparr>amount := double_add (amount g) (amount fl), txCount := txCount g + 1\<rparr> else g))
       (if map_of acc (flow_key fl) = None
        then acc @ [(flow_key fl, fl\<lparr>amount := 0, txCount := 0\<rparr>)] else acc)"
  unfolding aggregate_step_def Let_def
  by (rule map_cong) auto

lemma map_of_map_keyed:
  "map_of (map (\<lambda>(k, g). (k, h k g)) xs) k = map_option (h k) (map_of xs k)"
  by (induction xs) auto

lemma map_of_aggregate_step:
  "map_of (aggregate_step acc fl) k =
     (if k = flow_key fl
      then Some (case map_of acc k of
                   None \<Rightarrow> fl\<lparr>amount := double_add 0 (amount fl), txCount := 1\<rparr>
                 | Some g \<Rightarrow> g\<lparr>amount := double_add (amount g) (amount fl), txCount := txCount g + 1\<rparr>)
      else map_of acc k)"
  unfolding aggregate_step_alt map_of_map_keyed
  by (auto simp: map_add_def split: option.splits)

lemma keys_aggregate_step:
  "map fst (aggregate_step acc fl) =
     (if map_of acc (flow_key fl) = None then map fst acc @ [flow_key fl] else map fst acc)"
  unfolding aggregate_step_alt
  by (auto simp: comp_def case_prod_beta)

lemma distinct_aggregate_step:
  "distinct (map fst acc) \<Longrightarrow> distinct (map fst (aggregate_step acc fl))"
  by (auto simp: keys_aggregate_step map_of_eq_None_iff)


lemma keyed_aggregate_step:
  assumes "\<forall>(k, g)\<in>set acc. flow_key g = k"
  shows "\<forall>(k, g)\<in>set (aggregate_step acc fl). flow_key g = k"
  using assms unfolding aggregate_step_alt
  by (auto split: if_splits)

lemma distinct_aggregate:
  "distinct (map fst acc) \<Longrightarrow> distinct (map fst (foldl aggregate_step acc fs))"
  by (induction fs arbitrary: acc) (simp_all add: distinct_aggregate_step)

lemma keyed_aggregate:
  "\<forall>(k, g)\<in>set acc. flow_key g = k \<Longrightarrow>
   \<forall>(k, g)\<in>set (foldl aggregate_step acc fs). flow_key g = k"
proof (induction fs arbitrary: acc)
  case Nil
  then show ?case by simp
next
  case (Cons f fs)
  from Cons.IH [OF keyed_aggregate_step [OF Cons.prems]] show ?case by simp
qed

lemma keys_aggregate:
  "set (map fst (foldl aggregate_step acc fs)) = set (map fst acc) \<union> flow_key ` set fs"
proof (induction fs arbitrary: acc)
  case Nil
  then show ?case by simp
next
  case (Cons f fs)
  have "set (map fst (aggregate_step acc f)) = insert (flow_key f) (set (map fst acc))"
    by (auto simp: keys_aggregate_step map_of_eq_None_iff)
  with Cons.IH [of "aggregate_step acc f"] show ?case by auto
qed

text \<open>The amount of a group is the double sum, from 0 and in the order of the flows,
  of the amounts of the flows with its key.\<close>

lemma map_of_aggregate:
  assumes "map_of (foldl aggregate_step acc fs) k = Some g"
  shows "amount g = foldl (\<lambda>total f. double_add total (amount f))
                      (case map_of acc k of None \<Rightarrow> 0 | Some g0 \<Rightarrow> amount g0)
                      (filter (\<lambda>f. flow_key f = k) fs)
       \<and> txCount g = (case map_of acc k of None \<Rightarrow> 0 | Some g0 \<Rightarrow> txCount g0) +
                    length (filter (\<lambda>f. flow_key f = k) fs)"
  using assms
proof (induction fs arbitrary: acc)
  case Nil
  then show ?case by simp
next
  case (Cons f fs)
  from Cons.prems have "map_of (foldl aggregate_step (aggregate_step acc f) fs) k = Some g"
    by simp
  from Cons.IH [OF this] show ?case
    by (auto simp: map_of_aggregate_step split: option.splits)
qed

lemma fields_aggregate_step:
  assumes "(k, g) \<in> set (aggregate_step acc fl)"
  shows "(\<exists>g0. (k, g0) \<in> set acc \<and> account g = account g0 \<and> mint g = mint g0 \<and>
               flowType g = flowType g0 \<and> token g = token g0)
       \<or> (k = flow_key fl \<and> account g = account fl \<and> mint g = mint fl \<and>
           flowType g = flowType fl \<and> token g = token fl)"
  using assms unfolding aggregate_step_alt
  by (auto split: if_splits)

lemma fields_aggregate:
  assumes "(k, g) \<in> set (foldl aggregate_step acc fs)"
  shows "(\<exists>g0. (k, g0) \<in> set acc \<and> account g = account g0 \<and> mint g = mint g0 \<and>
               flowType g = flowType g0 \<and> token g = token g0)
       \<or> (\<exists>f\<in>set fs. k = flow_key f \<and> account g = account f \<and> mint g = mint f \<and>
           flowType g = flowType f \<and> token g = token f)"
  using assms
proof (induction fs arbitrary: acc)
  case Nil
  then show ?case by auto
next
  case (Cons f fs)
  from Cons.prems have "(k, g) \<in> set (foldl aggregate_step (aggregate_step acc f) fs)" by simp
  from Cons.IH [OF this] show ?case
  proof
    assume "\<exists>g0. (k, g0) \<in> set (aggregate_step acc f) \<and> account g = account g0 \<and>
        mint g = mint g0 \<and> flowType g = flowType g0 \<and> token g = token g0"
    then obtain g0 where g0: "(k, g0) \<in> set (aggregate_step acc f)"
        and same: "account g = account g0" "mint g = mint g0" "flowType g = flowType g0"
          "token g = token g0"
      by blast
    from fields_aggregate_step [OF g0] same show ?thesis by auto
  next
    assume "\<exists>f\<in>set fs. k = flow_key f \<and> account g = account f \<and> mint g = mint f \<and>
        flowType g = flowType f \<and> token g = token f"
    then show ?thesis by auto
  qed
qed

lemma aggregate_groups_keyed:
  "map flow_key (map snd (foldl aggregate_step [] fs)) = map fst (foldl aggregate_step [] fs)"
  using keyed_aggregate [of "[]" fs] by (auto intro!: map_cong)

lemma aggregateFlows_member:
  assumes "g \<in> set (aggregateFlows fs)"
  shows "map_of (foldl aggregate_step [] fs) (flow_key g) = Some g"
proof -
  from assms obtain k where kg: "(k, g) \<in> set (foldl aggregate_step [] fs)"
    by (auto simp: aggregateFlows_def)
  with keyed_aggregate [of "[]" fs] have "k = flow_key g" by auto
  with kg distinct_aggregate [of "[]" fs] show ?thesis by simp
qed

lemma aggregateFlows_amounts:
  assumes "g \<in> set (aggregateFlows fs)"
  shows "amount g = foldl (\<lambda>total f. double_add total (amount f)) 0
                      (filter (\<lambda>f. flow_key f = flow_key g) fs)
       \<and> txCount g = length (filter (\<lambda>f. flow_key f = flow_key g) fs)"
  using map_of_aggregate [OF aggregateFlows_member [OF assms]] by simp

lemma aggregateFlows_fields:
  assumes "g \<in> set (aggregateFlows fs)"
  shows "\<exists>f\<in>set fs. flow_key f = flow_key g \<and> account g = account f \<and> mint g = mint f \<and>
           flowType g = flowType f \<and> token g = token f"
proof -
  from assms obtain k where kg: "(k, g) \<in> set (foldl aggregate_step [] fs)"
    by (auto simp: aggregateFlows_def)
  with keyed_aggregate [of "[]" fs] have "k = flow_key g" by auto
  with fields_aggregate [OF kg] show ?thesis by auto
qed

lemma aggregateFlows_keys:
  "distinct (map flow_key (aggregateFlows fs)) \<and>
   set (map flow_key (aggregateFlows fs)) = flow_key ` set fs"
proof -
  have "mset (map flow_key (aggregateFlows fs)) = mset (map fst (foldl aggregate_step [] fs))"
    unfolding aggregateFlows_def
    by (simp add: aggregate_groups_keyed [symmetric] del: map_map)
  then have "distinct (map flow_key (aggregateFlows fs)) = distinct (map fst (foldl aggregate_step [] fs))"
    and "set (map flow_key (aggregateFlows fs)) = set (map fst (foldl aggregate_step [] fs))"
    by (rule mset_eq_imp_distinct_iff, rule mset_eq_setD)
  with distinct_aggregate [of "[]" fs] keys_aggregate [of "[]" fs] show ?thesis by simp
qed

lemma aggregateFlows_sorted:
  "sorted_wrt (\<lambda>a b. amount b \<le> amount a) (aggregateFlows fs)"
proof -
  have "sorted (map (\<lambda>g. - amount g) (aggregateFlows fs))"
    unfolding aggregateFlows_def by (rule sorted_sort_key)
  then show ?thesis by (simp add: sorted_map)
qed

lemma takeWhile_separator:
  "x \<notin> set a \<Longrightarrow> takeWhile (\<lambda>c. c \<noteq> x) (a @ x # r) = a"
  by (induction a) auto

lemma split_at_separator:
  assumes "x \<notin> set a" and "x \<notin> set a'" and "a @ x # r = a' @ x # r'"
  shows "a = a' \<and> r = r'"
proof -
  have "a = takeWhile (\<lambda>c. c \<noteq> x) (a @ x # r)"
    using assms(1) by (simp add: takeWhile_separator)
  also have "\<dots> = takeWhile (\<lambda>c. c \<noteq> x) (a' @ x # r')"
    using assms(3) by simp
  also have "\<dots> = a'"
    using assms(2) by (simp add: takeWhile_separator)
  finally have "a = a'" .
  with assms(3) show ?thesis by simp
qed

lemma flow_key_injective:
  assumes "CHR ''_'' \<notin> set (account f) \<union> set (mint_text (mint f))"
    and "CHR ''_'' \<notin> set (account f') \<union> set (mint_text (mint f'))"
  shows "flow_key f = flow_key f' \<longleftrightarrow>
           account f = account f' \<and> mint_text (mint f) = mint_text (mint f') \<and>
           flowType f = flowType f'"
proof
  assume eq: "flow_key f = flow_key f'"
  then have "account f @ CHR ''_'' # (mint_text (mint f) @ ''_'' @ flowType f) =
             account f' @ CHR ''_'' # (mint_text (mint f') @ ''_'' @ flowType f')"
    by (simp add: flow_key_def)
  from split_at_separator [OF _ _ this] assms
  have acc: "account f = account f'"
    and rest: "mint_text (mint f) @ CHR ''_'' # flowType f = mint_text (mint f') @ CHR ''_'' # flowType f'"
    by auto
  from split_at_separator [OF _ _ rest] assms acc
  show "account f = account f' \<and> mint_text (mint f) = mint_text (mint f') \<and>
           flowType f = flowType f'"
    by auto
next
  assume "account f = account f' \<and> mint_text (mint f) = mint_text (mint f') \<and>
           flowType f = flowType f'"
  then show "flow_key f = flow_key f'" by (simp add: flow_key_def)
qed


lemma two_outflows_extract:
  "extract_flows no_metadata ''Prog1111'' two_outflows =
     Inr ([swap_flow ''D1'' 1 1, swap_flow ''Big'' 18 1, swap_flow ''D1'' 1 1], [])"
  by code_simp

lemma two_outflows_summary:
  "summarize_flows [swap_flow ''D1'' 1 1, swap_flow ''Big'' 18 1, swap_flow ''D1'' 1 1] [] =
     \<lparr>topOutflows = [swap_flow ''Big'' 18 1, swap_flow ''D1'' 2 2], topInflows = [],
      concentrationRisk = True\<rparr>"
  by code_simp

lemma seven_outflows_extract:
  "extract_flows no_metadata ''Prog1111'' seven_outflows =
     Inr ([swap_flow ''Big'' 81 1, swap_flow ''D1'' 4 1, swap_flow ''D2'' 4 1,
           swap_flow ''D3'' 4 1, swap_flow ''D4'' 4 1, swap_flow ''D5'' 4 1,
           swap_flow ''D6'' 4 1], [])"
  by code_simp

lemma seven_outflows_result:
  "analyzeTokenFlows no_metadata seven_outflows ''Prog1111'' =
     Inr \<lparr>topOutflows = [swap_flow ''Big'' 81 1, swap_flow ''D1'' 4 1, swap_flow ''D2'' 4 1,
                          swap_flow ''D3'' 4 1, swap_flow ''D4'' 4 1],
          topInflows = [], concentrationRisk = True\<rparr>"
  by code_simp

lemma seven_outflows_totals:
  "foldl (\<lambda>total f. double_add total (amount f)) 0
     [swap_flow ''Big'' 81 1, swap_flow ''D1'' 4 1, swap_flow ''D2'' 4 1,
      swap_flow ''D3'' 4 1, swap_flow ''D4'' 4 1, swap_flow ''D5'' 4 1,
      swap_flow ''D6'' 4 1] = 105"
  "double_times double_0_8 105 = 84"
  by code_simp+

text \<open>The rounding matters at the threshold. With outflows of 0.2, 0.03 and 0.02 SOL the
  double total is 0.25 and its product with 0.8 is the double 0.2, which the largest
  amount does not exceed; with 0.0312, 0.00468 and 0.00312 SOL the flag is set. In both
  cases exact arithmetic on the same doubles decides the other way. A swap whose first
  account is null gives no flow and no error, and a token amount is divided by the power
  of ten of the decimals in doubles. The last four lines are 0.1 + 0.2, 1 / 3 and two
  ties.\<close>

lemma rounding_examples:
  "round_double (1/10) = double_0_1"
  "round_double (1/20) = double_0_05"
  "round_double (4/5) = double_0_8"
  "analyzeTokenFlows no_metadata boundary_outflows ''Prog1111'' =
     Inr \<lparr>topOutflows = [swap_flow ''A'' (round_double (2/10)) 1,
                          swap_flow ''B'' (round_double (3/100)) 1,
                          swap_flow ''C'' (round_double (2/100)) 1],
          topInflows = [], concentrationRisk = False\<rparr>"
  "(4/5) * (round_double (2/10) + round_double (3/100) + round_double (2/100)) < round_double (2/10)"
  "analyzeTokenFlows no_metadata boundary_outflows_2 ''Prog1111'' =
     Inr \<lparr>topOutflows = [swap_flow ''A'' (round_double (312/10000)) 1,
                          swap_flow ''B'' (round_double (468/100000)) 1,
                          swap_flow ''C'' (round_double (312/100000)) 1],
          topInflows = [], concentrationRisk = True\<rparr>"
  "round_double (312/10000) \<le>
     (4/5) * (round_double (312/10000) + round_double (468/100000) + round_double (312/100000))"
  "analyzeTokenFlows no_metadata [null_account_transaction] ''Prog1111'' =
     Inr \<lparr>topOutflows = [], topInflows = [], concentrationRisk = False\<rparr>"
  "analyzeTokenFlows no_metadata [token_transfer_transaction] ''Prog1111'' =
     Inr \<lparr>topOutflows = [\<lparr>account = ''Bob22222'', amount = 5693435372711845 / 2 ^ 62,
                           token = Some ''MintAAAA'', mint = Some ''MintAAAA'',
                           flowType = ''transfer'', txCount = 1\<rparr>],
          topInflows = [], concentrationRisk = True\<rparr>"
  "double_add double_0_1 (round_double (2/10)) = 1351079888211149 / 2 ^ 52"
  "double_divide 1 3 = 6004799503160661 / 2 ^ 54"
  "round_double (2 ^ 53 + 1) = 2 ^ 53"
  "round_double (2 ^ 53 + 3) = 2 ^ 53 + 4"
  by code_simp+

lemma concentrationRisk_summarize:
  "concentrationRisk (summarize_flows outs ins) \<longleftrightarrow>
     topOutflows (summarize_flows outs ins) \<noteq> [] \<and>
     amount (hd (topOutflows (summarize_flows outs ins))) >
       double_times double_0_8
         (foldl (\<lambda>total f. double_add total (amount f)) 0 (topOutflows (summarize_flows outs ins)))"
  by (cases "take 5 (aggregateFlows outs)")
     (simp_all add: summarize_flows_def Let_def)

text \<open>
  C7, as the code has it. The flows of each direction are grouped by the key string
  built from account, mint and flow type: the groups have pairwise different keys, every
  flow's key has its group, a group's amount is the sum, added in doubles from 0 in the
  order of the flows, of the amounts of the flows with its key, its count is their
  number, and it carries the account, mint and flow type of a flow with its key. Keys of
  flows whose account and mint hold no underscore are equal exactly when account, mint
  and flow type are. The groups are sorted by descending amount and at most the first
  five are kept in each direction. \<open>concentrationRisk\<close> is true exactly when there is a
  kept outflow group and the largest amount exceeds the double product of 0.8 and the
  double sum of the amounts of the kept (at most five) outflow groups.
\<close>

theorem analyzeTokenFlows_aggregation:
  assumes "extract_flows md addr txs = Inr (outs, ins)"
  shows "analyzeTokenFlows md txs addr = Inr (summarize_flows outs ins) \<and>
     topOutflows (summarize_flows outs ins) = take 5 (aggregateFlows outs) \<and>
     topInflows (summarize_flows outs ins) = take 5 (aggregateFlows ins) \<and>
     length (topOutflows (summarize_flows outs ins)) \<le> 5 \<and>
     length (topInflows (summarize_flows outs ins)) \<le> 5 \<and>
     distinct (map flow_key (aggregateFlows fs)) \<and>
     set (map flow_key (aggregateFlows fs)) = flow_key ` set fs \<and>
     (\<forall>g\<in>set (aggregateFlows fs).
        amount g = foldl (\<lambda>total f. double_add total (amount f)) 0
                     (filter (\<lambda>f. flow_key f = flow_key g) fs) \<and>
        txCount g = length (filter (\<lambda>f. flow_key f = flow_key g) fs) \<and>
        (\<exists>f\<in>set fs. flow_key f = flow_key g \<and> account g = account f \<and> mint g = mint f \<and>
           flowType g = flowType f)) \<and>
     flow_key f1 = account f1 @ ''_'' @ mint_text (mint f1) @ ''_'' @ flowType f1 \<and>
     (CHR ''_'' \<notin> set (account f1) \<union> set (mint_text (mint f1)) \<and>
      CHR ''_'' \<notin> set (account f2) \<union> set (mint_text (mint f2)) \<longrightarrow>
        (flow_key f1 = flow_key f2 \<longleftrightarrow>
           account f1 = account f2 \<and> mint_text (mint f1) = mint_text (mint f2) \<and>
           flowType f1 = flowType f2)) \<and>
     sorted_wrt (\<lambda>a b. amount b \<le> amount a) (aggregateFlows fs) \<and>
     (concentrationRisk (summarize_flows outs ins) \<longleftrightarrow>
        topOutflows (summarize_flows outs ins) \<noteq> [] \<and>
        amount (hd (topOutflows (summarize_flows outs ins))) >
          double_times double_0_8
            (foldl (\<lambda>total f. double_add total (amount f)) 0
               (topOutflows (summarize_flows outs ins)))) \<and>
     double_add x y = round_double (x + y) \<and>
     double_times x y = round_double (x * y) \<and>
     round_double (4/5) = double_0_8"
proof -
  have result: "analyzeTokenFlows md txs addr = Inr (summarize_flows outs ins)"
    using assms by (simp add: analyzeTokenFlows_def)
  have tops: "topOutflows (summarize_flows outs ins) = take 5 (aggregateFlows outs)"
    "topInflows (summarize_flows outs ins) = take 5 (aggregateFlows ins)"
    by (simp_all add: summarize_flows_def Let_def)
  have lengths: "length (topOutflows (summarize_flows outs ins)) \<le> 5"
    "length (topInflows (summarize_flows outs ins)) \<le> 5"
    by (simp_all add: tops)
  have groups: "\<forall>g\<in>set (aggregateFlows fs).
        amount g = foldl (\<lambda>total f. double_add total (amount f)) 0
                     (filter (\<lambda>f. flow_key f = flow_key g) fs) \<and>
        txCount g = length (filter (\<lambda>f. flow_key f = flow_key g) fs) \<and>
        (\<exists>f\<in>set fs. flow_key f = flow_key g \<and> account g = account f \<and> mint g = mint f \<and>
           flowType g = flowType f)"
  proof
    fix g assume g: "g \<in> set (aggregateFlows fs)"
    from aggregateFlows_amounts [OF g] aggregateFlows_fields [OF g]
    show "amount g = foldl (\<lambda>total f. double_add total (amount f)) 0
                     (filter (\<lambda>f. flow_key f = flow_key g) fs) \<and>
        txCount g = length (filter (\<lambda>f. flow_key f = flow_key g) fs) \<and>
        (\<exists>f\<in>set fs. flow_key f = flow_key g \<and> account g = account f \<and> mint g = mint f \<and>
           flowType g = flowType f)"
      by blast
  qed
  have key: "flow_key f1 = account f1 @ ''_'' @ mint_text (mint f1) @ ''_'' @ flowType f1"
    by (simp add: flow_key_def)
  have keys: "CHR ''_'' \<notin> set (account f1) \<union> set (mint_text (mint f1)) \<and>
      CHR ''_'' \<notin> set (account f2) \<union> set (mint_text (mint f2)) \<longrightarrow>
        (flow_key f1 = flow_key f2 \<longleftrightarrow>
           account f1 = account f2 \<and> mint_text (mint f1) = mint_text (mint f2) \<and>
           flowType f1 = flowType f2)"
    using flow_key_injective [of f1 f2] by blast
  have ops: "double_add x y = round_double (x + y)" "double_times x y = round_double (x * y)"
    by (simp_all add: double_add_def double_times_def)
  from result tops lengths aggregateFlows_keys [of fs] groups key keys aggregateFlows_sorted [of fs]
    concentrationRisk_summarize [of outs ins] ops rounding_examples(3)
  show ?thesis by blast
qed

theorem analyzeTokenFlows_aggregation_witness:
  "extract_flows no_metadata ''Prog1111'' two_outflows =
     Inr ([swap_flow ''D1'' 1 1, swap_flow ''Big'' 18 1, swap_flow ''D1'' 1 1], []) \<and>
   analyzeTokenFlows no_metadata two_outflows ''Prog1111'' =
     Inr \<lparr>topOutflows = [swap_flow ''Big'' 18 1, swap_flow ''D1'' 2 2], topInflows = [],
          concentrationRisk = True\<rparr>"
  using analyzeTokenFlows_aggregation [OF two_outflows_extract] two_outflows_extract
    two_outflows_summary
  by simp

text \<open>With more than five outflow groups the sum of the kept groups is smaller than
  the total outflow volume. Seven outflows of 81, 4, 4, 4, 4, 4 and 4 SOL to seven
  accounts total 105 SOL, of which 81 is not more than 80% (84, in doubles and exactly),
  yet the risk flag is set because 81 exceeds 80% of the 97 SOL of the five kept
  groups.\<close>

theorem analyzeTokenFlows_concentration_counterexample:
  "extract_flows no_metadata ''Prog1111'' seven_outflows =
     Inr ([swap_flow ''Big'' 81 1, swap_flow ''D1'' 4 1, swap_flow ''D2'' 4 1,
           swap_flow ''D3'' 4 1, swap_flow ''D4'' 4 1, swap_flow ''D5'' 4 1,
           swap_flow ''D6'' 4 1], []) \<and>
   analyzeTokenFlows no_metadata seven_outflows ''Prog1111'' =
     Inr \<lparr>topOutflows = [swap_flow ''Big'' 81 1, swap_flow ''D1'' 4 1, swap_flow ''D2'' 4 1,
                          swap_flow ''D3'' 4 1, swap_flow ''D4'' 4 1],
          topInflows = [], concentrationRisk = True\<rparr> \<and>
   foldl (\<lambda>total f. double_add total (amount f)) 0
     [swap_flow ''Big'' 81 1, swap_flow ''D1'' 4 1, swap_flow ''D2'' 4 1,
      swap_flow ''D3'' 4 1, swap_flow ''D4'' 4 1, swap_flow ''D5'' 4 1,
      swap_flow ''D6'' 4 1] = 105 \<and>
   double_times double_0_8 105 = 84 \<and>
   \<not> (81 > double_times double_0_8 105) \<and>
   \<not> (81 > (4/5) * (105::rat))"
  using seven_outflows_extract seven_outflows_result seven_outflows_totals
  by simp

end
